theory Spec2Isabelle
  imports Complex_Main
begin

section \<open>Storage table of \<^verbatim>\<open>gte::Matrix\<close>\<close>

text \<open>
  \<^verbatim>\<open>Matrix<NumRows, NumCols, Real>\<close> owns one \<^verbatim>\<open>Table\<close>, whose member
  \<^verbatim>\<open>mStorage\<close> is \<^verbatim>\<open>std::array<std::array<Real, NumCols>, NumRows>\<close> when
  \<^verbatim>\<open>GTE_USE_ROW_MAJOR\<close> is defined and
  \<^verbatim>\<open>std::array<std::array<Real, NumRows>, NumCols>\<close> otherwise. The preprocessor switch is
  the value of type \<open>Layout\<close>; the template parameters \<^verbatim>\<open>NumRows\<close> and
  \<^verbatim>\<open>NumCols\<close> are explicit arguments of every operation. The storage is the list of the
  \<open>NumRows * NumCols\<close> elements in the order of their addresses, so that
  \<^verbatim>\<open>mStorage[a][b]\<close> is the element at offset \<open>a * inner + b\<close>, where \<open>inner\<close> is the
  length of the inner array, and \<^verbatim>\<open>(&mStorage[0][0])[i]\<close> is the element at offset \<open>i\<close>.
  The dimensions are natural numbers (the products \<open>NumRows * NumCols\<close> fit
  \<^verbatim>\<open>int32_t\<close> whenever the arrays exist), and so are the loop counters and valid indices.
  The element type \<^verbatim>\<open>Real\<close> is a type variable that carries only the operations an
  operation uses (no algebraic law is assumed by a definition).
\<close>

datatype Layout = RowMajor | ColMajor

type_synonym 'a Table = "'a list"

text \<open>Offset of \<^verbatim>\<open>mStorage[r][c]\<close> (row-major) or \<^verbatim>\<open>mStorage[c][r]\<close> (column-major).\<close>

definition slot :: "Layout \<Rightarrow> nat \<Rightarrow> nat \<Rightarrow> nat \<Rightarrow> nat \<Rightarrow> nat" where
  "slot lay NumRows NumCols r c =
     (case lay of RowMajor \<Rightarrow> r * NumCols + c | ColMajor \<Rightarrow> c * NumRows + r)"

text \<open>\<^verbatim>\<open>Table::operator()(r, c)\<close>, read and write through the returned reference.\<close>

definition elem :: "Layout \<Rightarrow> nat \<Rightarrow> nat \<Rightarrow> 'a Table \<Rightarrow> nat \<Rightarrow> nat \<Rightarrow> 'a" where
  "elem lay NumRows NumCols M r c = M ! slot lay NumRows NumCols r c"

definition set_elem :: "Layout \<Rightarrow> nat \<Rightarrow> nat \<Rightarrow> 'a Table \<Rightarrow> nat \<Rightarrow> nat \<Rightarrow> 'a \<Rightarrow> 'a Table" where
  "set_elem lay NumRows NumCols M r c v = M[slot lay NumRows NumCols r c := v]"

text \<open>\<^verbatim>\<open>Table::operator[](i)\<close>, read and write through the returned reference.\<close>

definition lin :: "'a Table \<Rightarrow> nat \<Rightarrow> 'a" where
  "lin M i = M ! i"

definition set_lin :: "'a Table \<Rightarrow> nat \<Rightarrow> 'a \<Rightarrow> 'a Table" where
  "set_lin M i v = M[i := v]"

text \<open>
  \<^verbatim>\<open>Table::Table()\<close>: \<^verbatim>\<open>mStorage{}\<close> value-initialises the elements, then the nested
  loop (rows outer under row-major, columns outer under column-major) stores zero in each.
\<close>

definition Table_ctor :: "Layout \<Rightarrow> nat \<Rightarrow> nat \<Rightarrow> 'a::zero Table" where
  "Table_ctor lay NumRows NumCols =
     (case lay of
        RowMajor \<Rightarrow>
          fold (\<lambda>r. fold (\<lambda>c M. set_elem RowMajor NumRows NumCols M r c 0) [0..<NumCols])
            [0..<NumRows] (replicate (NumRows * NumCols) 0)
      | ColMajor \<Rightarrow>
          fold (\<lambda>c. fold (\<lambda>r M. set_elem ColMajor NumRows NumCols M r c 0) [0..<NumRows])
            [0..<NumCols] (replicate (NumRows * NumCols) 0))"

section \<open>Matrix value type\<close>

text \<open>\<^verbatim>\<open>MakeZero\<close>: the linear loop over all \<open>NumRows * NumCols\<close> slots.\<close>

definition MakeZero :: "nat \<Rightarrow> nat \<Rightarrow> 'a::zero Table \<Rightarrow> 'a Table" where
  "MakeZero NumRows NumCols M = fold (\<lambda>i M. set_lin M i 0) [0..<NumRows * NumCols] M"

text \<open>The default constructor \<^verbatim>\<open>Matrix()\<close>: the table is constructed, then \<^verbatim>\<open>MakeZero\<close>.\<close>

definition Matrix_default :: "Layout \<Rightarrow> nat \<Rightarrow> nat \<Rightarrow> 'a::zero Table" where
  "Matrix_default lay NumRows NumCols = MakeZero NumRows NumCols (Table_ctor lay NumRows NumCols)"

text \<open>
  \<^verbatim>\<open>Matrix(std::array<Real, NumRows * NumCols> const& values)\<close>: the counter \<open>i\<close> runs
  along with the two loop counters.
\<close>

definition Matrix_array :: "Layout \<Rightarrow> nat \<Rightarrow> nat \<Rightarrow> 'a::zero list \<Rightarrow> 'a Table" where
  "Matrix_array lay NumRows NumCols values =
     fst (fold (\<lambda>r. fold (\<lambda>c (M, i). (set_elem lay NumRows NumCols M r c (values ! i), Suc i))
                  [0..<NumCols])
            [0..<NumRows] (Table_ctor lay NumRows NumCols, 0))"

text \<open>\<^verbatim>\<open>static_cast<int32_t>(values.size())\<close>: the size reduced to 32 bits, read as signed.\<close>

definition int32_of_size :: "nat \<Rightarrow> int" where
  "int32_of_size n = (let m = int n mod 2 ^ 32 in if m < 2 ^ 31 then m else m - 2 ^ 32)"

text \<open>
  \<^verbatim>\<open>Matrix(std::initializer_list<Real> values)\<close>. The inner loop of the first loop nest, from
  column \<open>c\<close> on: it copies \<^verbatim>\<open>*iter++\<close> while \<open>i < numValues\<close> and leaves by
  \<^verbatim>\<open>break\<close> otherwise. The iterator is the list of the values not yet consumed. The state
  after the loop is returned: column, counter, iterator and table.
\<close>

function init_cols ::
  "Layout \<Rightarrow> nat \<Rightarrow> nat \<Rightarrow> int \<Rightarrow> nat \<Rightarrow> nat \<times> nat \<times> 'a list \<times> 'a Table
     \<Rightarrow> nat \<times> nat \<times> 'a list \<times> 'a Table" where
  "init_cols lay NumRows NumCols numValues r (c, i, iter, M) =
     (if c < NumCols then
        (if int i < numValues then
           init_cols lay NumRows NumCols numValues r
             (Suc c, Suc i, tl iter, set_elem lay NumRows NumCols M r c (hd iter))
         else (c, i, iter, M))
      else (c, i, iter, M))"
  by pat_completeness auto
termination
  by (relation "measure (\<lambda>(lay, NumRows, NumCols, numValues, r, c, i, iter, M). NumCols - c)") auto

text \<open>
  The outer loop of the first loop nest, from row \<open>r\<close> on. When the inner loop stopped before
  the end of the row, the rest of the row is zeroed, \<open>r\<close> is incremented and the loop is left.
  The row counter and the table after the loop are returned.
\<close>

function init_rows ::
  "Layout \<Rightarrow> nat \<Rightarrow> nat \<Rightarrow> int \<Rightarrow> nat \<times> nat \<times> 'a list \<times> 'a::zero Table \<Rightarrow> nat \<times> 'a Table" where
  "init_rows lay NumRows NumCols numValues (r, i, iter, M) =
     (if r < NumRows then
        (case init_cols lay NumRows NumCols numValues r (0, i, iter, M) of
           (c, i', iter', M') \<Rightarrow>
             if c < NumCols then
               (Suc r, fold (\<lambda>c M. set_elem lay NumRows NumCols M r c 0) [c..<NumCols] M')
             else init_rows lay NumRows NumCols numValues (Suc r, i', iter', M'))
      else (r, M))"
  by pat_completeness auto
termination
  by (relation "measure (\<lambda>(lay, NumRows, NumCols, numValues, r, i, iter, M). NumRows - r)") auto

declare init_rows.simps [simp del]

definition Matrix_init :: "Layout \<Rightarrow> nat \<Rightarrow> nat \<Rightarrow> 'a::zero list \<Rightarrow> 'a Table" where
  "Matrix_init lay NumRows NumCols values =
     (let numValues = int32_of_size (length values) in
      case init_rows lay NumRows NumCols numValues (0, 0, values, Table_ctor lay NumRows NumCols) of
        (r, M) \<Rightarrow>
          if r < NumRows then
            fold (\<lambda>r. fold (\<lambda>c M. set_elem lay NumRows NumCols M r c 0) [0..<NumCols])
              [r..<NumRows] M
          else M)"

text \<open>\<^verbatim>\<open>MakeUnit(int32_t r, int32_t c)\<close>: the arguments are signed and are checked.\<close>

definition MakeUnit :: "Layout \<Rightarrow> nat \<Rightarrow> nat \<Rightarrow> 'a::{zero,one} Table \<Rightarrow> int \<Rightarrow> int \<Rightarrow> 'a Table" where
  "MakeUnit lay NumRows NumCols M r c =
     (let M = MakeZero NumRows NumCols M in
      if 0 \<le> r \<and> r < int NumRows \<and> 0 \<le> c \<and> c < int NumCols
      then set_elem lay NumRows NumCols M (nat r) (nat c) 1
      else M)"

text \<open>\<^verbatim>\<open>MakeIdentity\<close>: diagonal entries one, others zero, also when not square.\<close>

definition MakeIdentity :: "Layout \<Rightarrow> nat \<Rightarrow> nat \<Rightarrow> 'a::{zero,one} Table \<Rightarrow> 'a Table" where
  "MakeIdentity lay NumRows NumCols M =
     (let M = MakeZero NumRows NumCols M;
          numDiagonal = (if NumRows \<le> NumCols then NumRows else NumCols)
      in fold (\<lambda>i M. set_elem lay NumRows NumCols M i i 1) [0..<numDiagonal] M)"

text \<open>The constructor \<^verbatim>\<open>Matrix(int32_t r, int32_t c)\<close> and the static factories.\<close>

definition Matrix_unit :: "Layout \<Rightarrow> nat \<Rightarrow> nat \<Rightarrow> int \<Rightarrow> int \<Rightarrow> 'a::{zero,one} Table" where
  "Matrix_unit lay NumRows NumCols r c =
     MakeUnit lay NumRows NumCols (Table_ctor lay NumRows NumCols) r c"

definition Zero :: "Layout \<Rightarrow> nat \<Rightarrow> nat \<Rightarrow> 'a::zero Table" where
  "Zero lay NumRows NumCols = MakeZero NumRows NumCols (Matrix_default lay NumRows NumCols)"

definition Unit :: "Layout \<Rightarrow> nat \<Rightarrow> nat \<Rightarrow> int \<Rightarrow> int \<Rightarrow> 'a::{zero,one} Table" where
  "Unit lay NumRows NumCols r c =
     MakeUnit lay NumRows NumCols (Matrix_default lay NumRows NumCols) r c"

definition Identity :: "Layout \<Rightarrow> nat \<Rightarrow> nat \<Rightarrow> 'a::{zero,one} Table" where
  "Identity lay NumRows NumCols =
     MakeIdentity lay NumRows NumCols (Matrix_default lay NumRows NumCols)"

section \<open>Arithmetic operators\<close>

text \<open>
  \<^verbatim>\<open>operator/=\<close> tests the scalar against zero; \<^verbatim>\<open>operator/\<close> copies its argument and
  applies \<^verbatim>\<open>operator/=\<close> to the copy.
\<close>

definition div_assign :: "nat \<Rightarrow> nat \<Rightarrow> 'a::{zero,one,times,inverse} Table \<Rightarrow> 'a \<Rightarrow> 'a Table" where
  "div_assign NumRows NumCols M scalar =
     (if scalar \<noteq> 0 then
        (let invScalar = 1 / scalar in
         fold (\<lambda>i M. set_lin M i (lin M i * invScalar)) [0..<NumRows * NumCols] M)
      else fold (\<lambda>i M. set_lin M i 0) [0..<NumRows * NumCols] M)"

definition div_scalar :: "nat \<Rightarrow> nat \<Rightarrow> 'a::{zero,one,times,inverse} Table \<Rightarrow> 'a \<Rightarrow> 'a Table" where
  "div_scalar NumRows NumCols M scalar = (let result = M in div_assign NumRows NumCols result scalar)"

section \<open>Norms and the solver adapter\<close>

definition L1Norm :: "nat \<Rightarrow> nat \<Rightarrow> 'a::{plus,abs} Table \<Rightarrow> 'a" where
  "L1Norm NumRows NumCols M =
     fold (\<lambda>i sum. sum + \<bar>lin M i\<bar>) [1..<NumRows * NumCols] \<bar>lin M 0\<bar>"

definition LInfinityNorm :: "nat \<Rightarrow> nat \<Rightarrow> 'a::{abs,ord} Table \<Rightarrow> 'a" where
  "LInfinityNorm NumRows NumCols M =
     fold (\<lambda>i maxAbsElement.
             (let absElement = \<bar>lin M i\<bar> in
              if absElement > maxAbsElement then absElement else maxAbsElement))
       [1..<NumRows * NumCols] (lin M 0)"

text \<open>
  \<^verbatim>\<open>GaussianElimination<Real>\<close> is declared in a header that is not part of the sources at
  hand, so the functor is a parameter: it receives \<open>N\<close>, the \<open>N * N\<close> values behind the input
  pointer and, unless the pointer is null, the values behind the inverse pointer; it returns
  the invertibility flag, the final contents of the inverse buffer and the determinant.
\<close>

type_synonym 'a Elimination = "nat \<Rightarrow> 'a list \<Rightarrow> 'a list option \<Rightarrow> bool \<times> 'a list option \<times> 'a"

text \<open>The \<open>N * N\<close> values behind the pointer \<^verbatim>\<open>&M[0]\<close>.\<close>

definition elements :: "nat \<Rightarrow> 'a Table \<Rightarrow> 'a list" where
  "elements N M = map (lin M) [0..<N * N]"

text \<open>
  \<^verbatim>\<open>Inverse\<close> returns the matrix whose storage the functor wrote, together with the value
  stored through \<^verbatim>\<open>reportInvertibility\<close>.
\<close>

definition Inverse :: "Layout \<Rightarrow> nat \<Rightarrow> 'a::zero Elimination \<Rightarrow> 'a Table \<Rightarrow> 'a Table \<times> bool" where
  "Inverse lay N GaussianElimination M =
     (let invM = Matrix_default lay N N in
      case GaussianElimination N (elements N M) (Some (elements N invM)) of
        (invertible, out, determinant) \<Rightarrow>
          ((case out of Some buffer \<Rightarrow> buffer | None \<Rightarrow> invM), invertible))"

definition Determinant :: "Layout \<Rightarrow> nat \<Rightarrow> 'a::zero Elimination \<Rightarrow> 'a Table \<Rightarrow> 'a" where
  "Determinant lay N GaussianElimination M =
     (case GaussianElimination N (elements N M) None of
        (invertible, out, determinant) \<Rightarrow> determinant)"

section \<open>Linear-algebra functions\<close>

definition Transpose :: "Layout \<Rightarrow> nat \<Rightarrow> nat \<Rightarrow> 'a::zero Table \<Rightarrow> 'a Table" where
  "Transpose lay NumRows NumCols M =
     fold (\<lambda>r. fold (\<lambda>c result. set_elem lay NumCols NumRows result c r (elem lay NumRows NumCols M r c))
                 [0..<NumCols])
       [0..<NumRows] (Matrix_default lay NumCols NumRows)"

text \<open>
  The products: \<open>A\<close> is \<open>NumRows \<times> NumCommon\<close> (transposed for \<open>ATB\<close>), \<open>B\<close> is
  \<open>NumCommon \<times> NumCols\<close> (transposed for \<open>ABT\<close>). The innermost loop reads and writes
  \<^verbatim>\<open>result(r, c)\<close>.
\<close>

definition MultiplyAB ::
  "Layout \<Rightarrow> nat \<Rightarrow> nat \<Rightarrow> nat \<Rightarrow> 'a::{zero,plus,times} Table \<Rightarrow> 'a Table \<Rightarrow> 'a Table" where
  "MultiplyAB lay NumRows NumCols NumCommon A B =
     fold (\<lambda>r. fold (\<lambda>c result.
                  fold (\<lambda>i result.
                          set_elem lay NumRows NumCols result r c
                            (elem lay NumRows NumCols result r c
                               + elem lay NumRows NumCommon A r i * elem lay NumCommon NumCols B i c))
                    [0..<NumCommon] (set_elem lay NumRows NumCols result r c 0))
                 [0..<NumCols])
       [0..<NumRows] (Matrix_default lay NumRows NumCols)"

definition MultiplyABT ::
  "Layout \<Rightarrow> nat \<Rightarrow> nat \<Rightarrow> nat \<Rightarrow> 'a::{zero,plus,times} Table \<Rightarrow> 'a Table \<Rightarrow> 'a Table" where
  "MultiplyABT lay NumRows NumCols NumCommon A B =
     fold (\<lambda>r. fold (\<lambda>c result.
                  fold (\<lambda>i result.
                          set_elem lay NumRows NumCols result r c
                            (elem lay NumRows NumCols result r c
                               + elem lay NumRows NumCommon A r i * elem lay NumCols NumCommon B c i))
                    [0..<NumCommon] (set_elem lay NumRows NumCols result r c 0))
                 [0..<NumCols])
       [0..<NumRows] (Matrix_default lay NumRows NumCols)"

definition MultiplyATB ::
  "Layout \<Rightarrow> nat \<Rightarrow> nat \<Rightarrow> nat \<Rightarrow> 'a::{zero,plus,times} Table \<Rightarrow> 'a Table \<Rightarrow> 'a Table" where
  "MultiplyATB lay NumRows NumCols NumCommon A B =
     fold (\<lambda>r. fold (\<lambda>c result.
                  fold (\<lambda>i result.
                          set_elem lay NumRows NumCols result r c
                            (elem lay NumRows NumCols result r c
                               + elem lay NumCommon NumRows A i r * elem lay NumCommon NumCols B i c))
                    [0..<NumCommon] (set_elem lay NumRows NumCols result r c 0))
                 [0..<NumCols])
       [0..<NumRows] (Matrix_default lay NumRows NumCols)"

text \<open>\<^verbatim>\<open>HLift\<close> maps an \<open>N \<times> N\<close> matrix to an \<open>(N + 1) \<times> (N + 1)\<close> matrix.\<close>

definition HLift :: "Layout \<Rightarrow> nat \<Rightarrow> 'a::{zero,one} Table \<Rightarrow> 'a Table" where
  "HLift lay N M =
     fold (\<lambda>r. fold (\<lambda>c result. set_elem lay (N + 1) (N + 1) result r c (elem lay N N M r c))
                 [0..<N])
       [0..<N] (MakeIdentity lay (N + 1) (N + 1) (Matrix_default lay (N + 1) (N + 1)))"

text \<open>
  \<^verbatim>\<open>HProject\<close> maps an \<open>N \<times> N\<close> matrix to an \<open>(N - 1) \<times> (N - 1)\<close> matrix; its
  \<^verbatim>\<open>static_assert(N >= 2)\<close> rejects smaller \<open>N\<close> when the program is compiled, so the
  theorems about it assume \<open>2 \<le> N\<close>.
\<close>

definition HProject :: "Layout \<Rightarrow> nat \<Rightarrow> 'a::zero Table \<Rightarrow> 'a Table" where
  "HProject lay N M =
     fold (\<lambda>r. fold (\<lambda>c result. set_elem lay (N - 1) (N - 1) result r c (elem lay N N M r c))
                 [0..<N - 1])
       [0..<N - 1] (Matrix_default lay (N - 1) (N - 1))"

section \<open>An element type with one-sided laws\<close>

text \<open>
  A type of three elements in which \<open>1 * x = x\<close>, \<open>0 * x = 0\<close> and \<open>x + 0 = x\<close> hold, while
  \<open>0 + x\<close> is \<open>0\<close>: addition returns its left argument and multiplication is decided by
  its left argument. It instantiates \<^verbatim>\<open>Real\<close> where the laws a property needs are to be
  told apart.
\<close>

datatype Tri = TZero | TOne | TOther

instantiation Tri :: "{zero, one, plus, times}"
begin
definition zero_Tri :: Tri where "zero_Tri = TZero"
definition one_Tri :: Tri where "one_Tri = TOne"
definition plus_Tri :: "Tri \<Rightarrow> Tri \<Rightarrow> Tri" where "plus_Tri x y = x"
definition times_Tri :: "Tri \<Rightarrow> Tri \<Rightarrow> Tri" where
  "times_Tri x y = (case x of TZero \<Rightarrow> TZero | TOne \<Rightarrow> y | TOther \<Rightarrow> TOther)"
instance ..
end

section \<open>Addressing\<close>

lemma slot_less:
  assumes "r < NumRows" "c < NumCols"
  shows "slot lay NumRows NumCols r c < NumRows * NumCols"
proof (cases lay)
  case RowMajor
  have "r * NumCols + c < Suc r * NumCols" using assms(2) by simp
  also have "\<dots> \<le> NumRows * NumCols" using assms(1) by (intro mult_le_mono1) simp
  finally show ?thesis using RowMajor by (simp add: slot_def)
next
  case ColMajor
  have "c * NumRows + r < Suc c * NumRows" using assms(1) by simp
  also have "\<dots> \<le> NumCols * NumRows" using assms(2) by (intro mult_le_mono1) simp
  finally show ?thesis using ColMajor by (simp add: slot_def mult.commute)
qed

lemma offset_unique:
  fixes a b :: nat
  assumes "b < n" "b' < n" "a * n + b = a' * n + b'"
  shows "a = a' \<and> b = b'"
proof -
  have "(a * n + b) div n = a" "(a' * n + b') div n = a'"
    using assms(1,2) by simp_all
  then have "a = a'" using assms(3) by simp
  then show ?thesis using assms(3) by simp
qed

lemma slot_inj:
  assumes "r < NumRows" "c < NumCols" "r' < NumRows" "c' < NumCols"
    and "slot lay NumRows NumCols r c = slot lay NumRows NumCols r' c'"
  shows "r = r' \<and> c = c'"
proof (cases lay)
  case RowMajor
  then show ?thesis using assms offset_unique [of c NumCols c' r r'] by (simp add: slot_def)
next
  case ColMajor
  then show ?thesis using assms offset_unique [of r NumRows r' c c'] by (simp add: slot_def)
qed

lemma slot_onto:
  assumes "i < NumRows * NumCols"
  shows "\<exists>r c. r < NumRows \<and> c < NumCols \<and> slot lay NumRows NumCols r c = i"
proof (cases lay)
  case RowMajor
  have "0 < NumCols" using assms by (cases NumCols) simp_all
  moreover have "i div NumCols < NumRows"
    using assms by (simp add: less_mult_imp_div_less)
  ultimately show ?thesis
    using RowMajor by (intro exI [of _ "i div NumCols"] exI [of _ "i mod NumCols"]) (simp add: slot_def)
next
  case ColMajor
  have "0 < NumRows" using assms by (cases NumRows) simp_all
  moreover have "i div NumRows < NumCols"
    using assms by (simp add: less_mult_imp_div_less mult.commute)
  ultimately show ?thesis
    using ColMajor by (intro exI [of _ "i mod NumRows"] exI [of _ "i div NumRows"]) (simp add: slot_def)
qed

lemma table_eqI:
  assumes "length A = NumRows * NumCols" "length B = NumRows * NumCols"
    and "\<And>r c. r < NumRows \<Longrightarrow> c < NumCols \<Longrightarrow>
           elem lay NumRows NumCols A r c = elem lay NumRows NumCols B r c"
  shows "A = B"
proof (rule nth_equalityI)
  show "length A = length B" using assms(1,2) by simp
next
  fix i assume "i < length A"
  then obtain r c where "r < NumRows" "c < NumCols" "slot lay NumRows NumCols r c = i"
    using slot_onto [of i NumRows NumCols lay] assms(1) by auto
  then show "A ! i = B ! i" using assms(3) [of r c] by (simp add: elem_def)
qed

section \<open>Loops that store into a table\<close>

lemma fold_nested_product:
  "fold (\<lambda>r. fold (\<lambda>c. h r c) cs) rs = fold (\<lambda>(r, c). h r c) (List.product rs cs)"
proof (induction rs)
  case Nil
  show ?case by simp
next
  case (Cons r rs)
  have "fold (\<lambda>(r, c). h r c) (map (Pair r) cs) = fold (h r) cs"
    by (simp add: fold_map comp_def)
  then show ?case using Cons by simp
qed

lemma length_fold_update [simp]:
  "length (fold (\<lambda>x M. M[t x := g x]) xs M) = length M"
  by (induction xs arbitrary: M) simp_all

lemma fold_update_other:
  "j \<notin> t ` set xs \<Longrightarrow> fold (\<lambda>x M. M[t x := g x]) xs M ! j = M ! j"
  by (induction xs arbitrary: M) auto

lemma fold_update_hit:
  assumes "inj_on t (set xs)" "x \<in> set xs" "t x < length M"
  shows "fold (\<lambda>x M. M[t x := g x]) xs M ! t x = g x"
  using assms
proof (induction xs arbitrary: M)
  case Nil
  then show ?case by simp
next
  case (Cons y ys)
  show ?case
  proof (cases "x \<in> set ys")
    case True
    then show ?thesis using Cons by simp
  next
    case False
    then have xy: "x = y" using Cons.prems(2) by simp
    have "t y \<notin> t ` set ys"
      using Cons.prems(1) False xy by (auto simp: inj_on_def)
    then have "fold (\<lambda>x M. M[t x := g x]) ys (M[t y := g y]) ! t y = M[t y := g y] ! t y"
      by (rule fold_update_other)
    then show ?thesis using xy Cons.prems(3) by simp
  qed
qed

lemma length_fold2 [simp]:
  "length (fold (\<lambda>r. fold (\<lambda>c M. M[s r c := f r c]) cs) rs M) = length M"
  by (induction rs arbitrary: M) simp_all

lemma fold2_hit:
  assumes inj: "\<And>r c r' c'. r \<in> set rs \<Longrightarrow> c \<in> set cs \<Longrightarrow> r' \<in> set rs \<Longrightarrow> c' \<in> set cs \<Longrightarrow>
                  s r c = s r' c' \<Longrightarrow> r = r' \<and> c = c'"
    and "r \<in> set rs" "c \<in> set cs" "s r c < length M"
  shows "fold (\<lambda>r. fold (\<lambda>c M. M[s r c := f r c]) cs) rs M ! s r c = f r c"
proof -
  let ?t = "\<lambda>(r, c). s r c" and ?g = "\<lambda>(r, c). f r c"
  have eq: "fold (\<lambda>r. fold (\<lambda>c M. M[s r c := f r c]) cs) rs M
      = fold (\<lambda>x M. M[?t x := ?g x]) (List.product rs cs) M"
    by (simp add: fold_nested_product case_prod_unfold)
  have "inj_on ?t (set (List.product rs cs))"
    using inj by (auto simp: inj_on_def)
  then have "fold (\<lambda>x M. M[?t x := ?g x]) (List.product rs cs) M ! ?t (r, c) = ?g (r, c)"
    using assms(2,3,4) by (intro fold_update_hit) simp_all
  then show ?thesis using eq by simp
qed

lemma fold2_other:
  assumes "\<And>r c. r \<in> set rs \<Longrightarrow> c \<in> set cs \<Longrightarrow> s r c \<noteq> j"
  shows "fold (\<lambda>r. fold (\<lambda>c M. M[s r c := f r c]) cs) rs M ! j = M ! j"
proof -
  let ?t = "\<lambda>(r, c). s r c" and ?g = "\<lambda>(r, c). f r c"
  have eq: "fold (\<lambda>r. fold (\<lambda>c M. M[s r c := f r c]) cs) rs M
      = fold (\<lambda>x M. M[?t x := ?g x]) (List.product rs cs) M"
    by (simp add: fold_nested_product case_prod_unfold)
  have "j \<notin> ?t ` set (List.product rs cs)" using assms by auto
  then have "fold (\<lambda>x M. M[?t x := ?g x]) (List.product rs cs) M ! j = M ! j"
    by (rule fold_update_other)
  then show ?thesis using eq by simp
qed

lemma fold_accumulate:
  "fold (\<lambda>i M. M[s := M ! s + t i]) xs (M[s := z]) = M[s := fold (\<lambda>i acc. acc + t i) xs z]"
proof (cases "s < length M")
  case True
  then show ?thesis by (induction xs arbitrary: z) simp_all
next
  case False
  then have same: "M[s := v] = M" for v by (simp add: list_update_beyond)
  then have "fold (\<lambda>i M. M[s := M ! s + t i]) xs M = M"
    by (induction xs) simp_all
  then show ?thesis by (simp add: same)
qed

lemma fold_lin_nth:
  assumes "n \<le> length M"
  shows "length (fold (\<lambda>i M. M[i := g i (M ! i)]) [0..<n] M) = length M \<and>
         (\<forall>j. fold (\<lambda>i M. M[i := g i (M ! i)]) [0..<n] M ! j = (if j < n then g j (M ! j) else M ! j))"
  using assms
proof (induction n)
  case 0
  show ?case by simp
next
  case (Suc n)
  then show ?case by (auto simp: nth_list_update)
qed

section \<open>Construction\<close>

lemma fold_keep:
  assumes "\<And>x. x \<in> set xs \<Longrightarrow> f x s = s"
  shows "fold f xs s = s"
  using assms by (induction xs) simp_all

lemma replicate_update_same: "(replicate n x)[i := x] = replicate n x"
  by (cases "i < n") (simp_all add: list_eq_iff_nth_eq nth_list_update)

lemma Table_ctor_eq: "Table_ctor lay NumRows NumCols = replicate (NumRows * NumCols) 0"
  by (cases lay) (simp_all add: Table_ctor_def set_elem_def fold_keep replicate_update_same)

lemma MakeZero_eq:
  assumes "length M = NumRows * NumCols"
  shows "MakeZero NumRows NumCols M = replicate (NumRows * NumCols) 0"
proof -
  have "length (fold (\<lambda>i M. M[i := (\<lambda>i x. 0) i (M ! i)]) [0..<NumRows * NumCols] M) = length M \<and>
         (\<forall>j. fold (\<lambda>i M. M[i := (\<lambda>i x. 0) i (M ! i)]) [0..<NumRows * NumCols] M ! j
             = (if j < NumRows * NumCols then (\<lambda>i x. 0) j (M ! j) else M ! j))"
    using assms by (intro fold_lin_nth) simp
  then show ?thesis
    using assms by (intro nth_equalityI) (simp_all add: MakeZero_def set_lin_def)
qed

lemma Matrix_default_eq: "Matrix_default lay NumRows NumCols = replicate (NumRows * NumCols) 0"
  by (simp add: Matrix_default_def Table_ctor_eq MakeZero_eq)

lemma elem_zeros:
  "r < NumRows \<Longrightarrow> c < NumCols \<Longrightarrow> elem lay NumRows NumCols (replicate (NumRows * NumCols) 0) r c = 0"
  by (simp add: elem_def slot_less)

lemma array_inner:
  "fold (\<lambda>c (M, i). (set_elem lay NumRows NumCols M r c (values ! i), Suc i)) [0..<n] (M, i)
     = (fold (\<lambda>c M. M[slot lay NumRows NumCols r c := values ! (i + c)]) [0..<n] M, i + n)"
  by (induction n) (simp_all add: set_elem_def)

lemma array_outer:
  "fold (\<lambda>r. fold (\<lambda>c (M, i). (set_elem lay NumRows NumCols M r c (values ! i), Suc i)) [0..<NumCols])
      [0..<n] (M, 0)
     = (fold (\<lambda>r. fold (\<lambda>c M. M[slot lay NumRows NumCols r c := values ! (r * NumCols + c)]) [0..<NumCols])
          [0..<n] M, n * NumCols)"
  by (induction n) (simp_all add: array_inner)

lemma length_Matrix_array: "length (Matrix_array lay NumRows NumCols values) = NumRows * NumCols"
  by (simp add: Matrix_array_def array_outer Table_ctor_eq)

lemma elem_Matrix_array:
  assumes "r < NumRows" "c < NumCols"
  shows "elem lay NumRows NumCols (Matrix_array lay NumRows NumCols values) r c
           = values ! (r * NumCols + c)"
proof -
  have "fold (\<lambda>r. fold (\<lambda>c M. M[slot lay NumRows NumCols r c := values ! (r * NumCols + c)]) [0..<NumCols])
          [0..<NumRows] (replicate (NumRows * NumCols) 0) ! slot lay NumRows NumCols r c
        = values ! (r * NumCols + c)"
    using assms by (intro fold2_hit) (auto dest: slot_inj simp: slot_less)
  then show ?thesis
    by (simp add: Matrix_array_def array_outer Table_ctor_eq elem_def)
qed

section \<open>Layout independence of the accessor\<close>

text \<open>
  C3: a matrix constructed from the same row-major value list under the row-major and under
  the column-major policy gives the same value at every valid \<open>(r, c)\<close>, namely the value
  number \<open>r * NumCols + c\<close> of the list.
\<close>

theorem accessor_layout_independent:
  assumes "length values = NumRows * NumCols" "r < NumRows" "c < NumCols"
  shows "elem RowMajor NumRows NumCols (Matrix_array RowMajor NumRows NumCols values) r c
           = elem ColMajor NumRows NumCols (Matrix_array ColMajor NumRows NumCols values) r c
         \<and> elem RowMajor NumRows NumCols (Matrix_array RowMajor NumRows NumCols values) r c
           = values ! (r * NumCols + c)"
  using assms by (simp add: elem_Matrix_array)

theorem accessor_layout_independent_witness:
  "length [1, 2, 3, 4, 5, 6 :: real] = 2 * 3 \<and> (1::nat) < 2 \<and> (2::nat) < 3
   \<and> elem RowMajor 2 3 (Matrix_array RowMajor 2 3 [1, 2, 3, 4, 5, 6 :: real]) 1 2
       = elem ColMajor 2 3 (Matrix_array ColMajor 2 3 [1, 2, 3, 4, 5, 6 :: real]) 1 2
   \<and> elem RowMajor 2 3 (Matrix_array RowMajor 2 3 [1, 2, 3, 4, 5, 6 :: real]) 1 2 = 6"
  using accessor_layout_independent [of "[1, 2, 3, 4, 5, 6 :: real]" 2 3 1 2] by simp

section \<open>Transpose\<close>

lemma length_Transpose: "length (Transpose lay NumRows NumCols M) = NumCols * NumRows"
  by (simp add: Transpose_def set_elem_def Matrix_default_eq)

lemma elem_Transpose:
  assumes "r < NumRows" "c < NumCols"
  shows "elem lay NumCols NumRows (Transpose lay NumRows NumCols M) c r = elem lay NumRows NumCols M r c"
proof -
  have "fold (\<lambda>r. fold (\<lambda>c result. result[slot lay NumCols NumRows c r := elem lay NumRows NumCols M r c])
                 [0..<NumCols])
          [0..<NumRows] (replicate (NumCols * NumRows) 0) ! slot lay NumCols NumRows c r
        = elem lay NumRows NumCols M r c"
    using assms by (intro fold2_hit) (auto dest: slot_inj simp: slot_less)
  then show ?thesis
    by (simp add: Transpose_def set_elem_def Matrix_default_eq elem_def)
qed

text \<open>
  C8: for an \<open>NumRows \<times> NumCols\<close> matrix \<open>M\<close>, \<open>Transpose M\<close> has
  \<open>NumCols * NumRows\<close> elements, its element \<open>(c, r)\<close> is the element \<open>(r, c)\<close> of \<open>M\<close> for
  all valid \<open>(r, c)\<close>, and transposing twice gives back the storage of \<open>M\<close>, so that
  \<^verbatim>\<open>operator==\<close> holds.
\<close>

theorem Transpose_involution:
  assumes "length M = NumRows * NumCols"
  shows "length (Transpose lay NumRows NumCols M) = NumCols * NumRows
         \<and> (\<forall>r c. r < NumRows \<and> c < NumCols \<longrightarrow>
               elem lay NumCols NumRows (Transpose lay NumRows NumCols M) c r
                 = elem lay NumRows NumCols M r c)
         \<and> Transpose lay NumCols NumRows (Transpose lay NumRows NumCols M) = M"
proof -
  have "Transpose lay NumCols NumRows (Transpose lay NumRows NumCols M) = M"
    using assms
    by (intro table_eqI [of _ NumRows NumCols _ lay])
       (simp_all add: length_Transpose elem_Transpose mult.commute)
  then show ?thesis by (simp add: length_Transpose elem_Transpose)
qed

theorem Transpose_involution_witness:
  "length [1, 2, 3, 4, 5, 6 :: real] = 2 * 3
   \<and> length (Transpose ColMajor 2 3 [1, 2, 3, 4, 5, 6 :: real]) = 3 * 2
   \<and> elem ColMajor 3 2 (Transpose ColMajor 2 3 [1, 2, 3, 4, 5, 6 :: real]) 2 1
       = elem ColMajor 2 3 [1, 2, 3, 4, 5, 6 :: real] 1 2
   \<and> Transpose ColMajor 3 2 (Transpose ColMajor 2 3 [1, 2, 3, 4, 5, 6 :: real]) = [1, 2, 3, 4, 5, 6]"
proof -
  have len: "length [1, 2, 3, 4, 5, 6 :: real] = 2 * 3" by simp
  note T = Transpose_involution [OF len, of ColMajor]
  have "(1::nat) < 2 \<and> (2::nat) < 3" by simp
  then have "elem ColMajor 3 2 (Transpose ColMajor 2 3 [1, 2, 3, 4, 5, 6 :: real]) 2 1
       = elem ColMajor 2 3 [1, 2, 3, 4, 5, 6 :: real] 1 2"
    using T by blast
  then show ?thesis using T len by blast
qed

section \<open>The product variants\<close>

lemma product_loop:
  "fold (\<lambda>r. fold (\<lambda>c result.
                fold (\<lambda>i result.
                        set_elem lay NumRows NumCols result r c
                          (elem lay NumRows NumCols result r c + t r c i))
                  is (set_elem lay NumRows NumCols result r c z))
               cs) rs M
   = fold (\<lambda>r. fold (\<lambda>c M. M[slot lay NumRows NumCols r c := fold (\<lambda>i acc. acc + t r c i) is z]) cs) rs M"
  by (simp add: set_elem_def elem_def fold_accumulate)

lemma product_loop_length:
  "length (fold (\<lambda>r. fold (\<lambda>c result.
                fold (\<lambda>i result.
                        set_elem lay NumRows NumCols result r c
                          (elem lay NumRows NumCols result r c + t r c i))
                  is (set_elem lay NumRows NumCols result r c z))
               cs) rs M) = length M"
  by (simp add: product_loop)

lemma product_loop_elem:
  assumes "r < NumRows" "c < NumCols" "length M = NumRows * NumCols"
  shows "elem lay NumRows NumCols
           (fold (\<lambda>r. fold (\<lambda>c result.
                fold (\<lambda>i result.
                        set_elem lay NumRows NumCols result r c
                          (elem lay NumRows NumCols result r c + t r c i))
                  is (set_elem lay NumRows NumCols result r c z))
               [0..<NumCols]) [0..<NumRows] M) r c
         = fold (\<lambda>i acc. acc + t r c i) is z"
proof -
  have "fold (\<lambda>r. fold (\<lambda>c M. M[slot lay NumRows NumCols r c := fold (\<lambda>i acc. acc + t r c i) is z])
                 [0..<NumCols]) [0..<NumRows] M ! slot lay NumRows NumCols r c
        = fold (\<lambda>i acc. acc + t r c i) is z"
    using assms by (intro fold2_hit) (auto dest: slot_inj simp: slot_less)
  then have "fold (\<lambda>r. fold (\<lambda>c result.
                fold (\<lambda>i result.
                        set_elem lay NumRows NumCols result r c
                          (elem lay NumRows NumCols result r c + t r c i))
                  is (set_elem lay NumRows NumCols result r c z))
               [0..<NumCols]) [0..<NumRows] M ! slot lay NumRows NumCols r c
        = fold (\<lambda>i acc. acc + t r c i) is z"
    by (simp only: product_loop)
  then show ?thesis by (simp only: elem_def)
qed

lemma length_MultiplyAB: "length (MultiplyAB lay NumRows NumCols NumCommon A B) = NumRows * NumCols"
  by (simp add: MultiplyAB_def product_loop_length Matrix_default_eq)

lemma length_MultiplyABT: "length (MultiplyABT lay NumRows NumCols NumCommon A B) = NumRows * NumCols"
  by (simp add: MultiplyABT_def product_loop_length Matrix_default_eq)

lemma length_MultiplyATB: "length (MultiplyATB lay NumRows NumCols NumCommon A B) = NumRows * NumCols"
  by (simp add: MultiplyATB_def product_loop_length Matrix_default_eq)

lemma elem_MultiplyAB:
  assumes "r < NumRows" "c < NumCols"
  shows "elem lay NumRows NumCols (MultiplyAB lay NumRows NumCols NumCommon A B) r c
         = fold (\<lambda>i acc. acc + elem lay NumRows NumCommon A r i * elem lay NumCommon NumCols B i c)
             [0..<NumCommon] 0"
  using assms by (simp add: MultiplyAB_def product_loop_elem Matrix_default_eq)

lemma elem_MultiplyABT:
  assumes "r < NumRows" "c < NumCols"
  shows "elem lay NumRows NumCols (MultiplyABT lay NumRows NumCols NumCommon A B) r c
         = fold (\<lambda>i acc. acc + elem lay NumRows NumCommon A r i * elem lay NumCols NumCommon B c i)
             [0..<NumCommon] 0"
  using assms by (simp add: MultiplyABT_def product_loop_elem Matrix_default_eq)

lemma elem_MultiplyATB:
  assumes "r < NumRows" "c < NumCols"
  shows "elem lay NumRows NumCols (MultiplyATB lay NumRows NumCols NumCommon A B) r c
         = fold (\<lambda>i acc. acc + elem lay NumCommon NumRows A i r * elem lay NumCommon NumCols B i c)
             [0..<NumCommon] 0"
  using assms by (simp add: MultiplyATB_def product_loop_elem Matrix_default_eq)

text \<open>
  C7: \<open>MultiplyAB A B\<close> has the same storage as \<open>MultiplyABT A (Transpose B)\<close> and as
  \<open>MultiplyATB (Transpose A) B\<close>: every element is the same sum, accumulated from zero in the
  same order, so no law of the element type is used.
\<close>

theorem MultiplyAB_transposed_variants:
  "MultiplyAB lay NumRows NumCols NumCommon A B
     = MultiplyABT lay NumRows NumCols NumCommon A (Transpose lay NumCommon NumCols B)
   \<and> MultiplyAB lay NumRows NumCols NumCommon A B
     = MultiplyATB lay NumRows NumCols NumCommon (Transpose lay NumRows NumCommon A) B"
proof
  show "MultiplyAB lay NumRows NumCols NumCommon A B
     = MultiplyABT lay NumRows NumCols NumCommon A (Transpose lay NumCommon NumCols B)"
  proof (rule table_eqI [of _ NumRows NumCols _ lay])
    fix r c assume rc: "r < NumRows" "c < NumCols"
    have "fold (\<lambda>i acc. acc + elem lay NumRows NumCommon A r i
                 * elem lay NumCols NumCommon (Transpose lay NumCommon NumCols B) c i) [0..<NumCommon] 0
        = fold (\<lambda>i acc. acc + elem lay NumRows NumCommon A r i * elem lay NumCommon NumCols B i c)
            [0..<NumCommon] 0"
      using rc by (intro fold_cong) (simp_all add: elem_Transpose)
    then show "elem lay NumRows NumCols (MultiplyAB lay NumRows NumCols NumCommon A B) r c
      = elem lay NumRows NumCols
          (MultiplyABT lay NumRows NumCols NumCommon A (Transpose lay NumCommon NumCols B)) r c"
      using rc by (simp add: elem_MultiplyAB elem_MultiplyABT)
  qed (simp_all add: length_MultiplyAB length_MultiplyABT)
next
  show "MultiplyAB lay NumRows NumCols NumCommon A B
     = MultiplyATB lay NumRows NumCols NumCommon (Transpose lay NumRows NumCommon A) B"
  proof (rule table_eqI [of _ NumRows NumCols _ lay])
    fix r c assume rc: "r < NumRows" "c < NumCols"
    have "fold (\<lambda>i acc. acc + elem lay NumCommon NumRows (Transpose lay NumRows NumCommon A) i r
                 * elem lay NumCommon NumCols B i c) [0..<NumCommon] 0
        = fold (\<lambda>i acc. acc + elem lay NumRows NumCommon A r i * elem lay NumCommon NumCols B i c)
            [0..<NumCommon] 0"
      using rc by (intro fold_cong) (simp_all add: elem_Transpose)
    then show "elem lay NumRows NumCols (MultiplyAB lay NumRows NumCols NumCommon A B) r c
      = elem lay NumRows NumCols
          (MultiplyATB lay NumRows NumCols NumCommon (Transpose lay NumRows NumCommon A) B) r c"
      using rc by (simp add: elem_MultiplyAB elem_MultiplyATB)
  qed (simp_all add: length_MultiplyAB length_MultiplyATB)
qed

section \<open>The identity matrix\<close>

lemma length_MakeZero: "length (MakeZero NumRows NumCols M) = length M"
  by (simp add: MakeZero_def set_lin_def)

lemma length_MakeIdentity:
  "length M = NumRows * NumCols \<Longrightarrow> length (MakeIdentity lay NumRows NumCols M) = NumRows * NumCols"
  by (simp add: MakeIdentity_def Let_def set_elem_def MakeZero_eq)

lemma elem_MakeIdentity:
  assumes "length M = NumRows * NumCols" "r < NumRows" "c < NumCols"
  shows "elem lay NumRows NumCols (MakeIdentity lay NumRows NumCols M) r c = (if r = c then 1 else 0)"
proof -
  define n where "n = (if NumRows \<le> NumCols then NumRows else NumCols)"
  define Z :: "'a list" where "Z = replicate (NumRows * NumCols) 0"
  let ?t = "\<lambda>i. slot lay NumRows NumCols i i"
  have res: "MakeIdentity lay NumRows NumCols M = fold (\<lambda>i M. M[?t i := 1]) [0..<n] Z"
    using assms(1) by (simp add: MakeIdentity_def Let_def set_elem_def MakeZero_eq n_def Z_def)
  have n: "n \<le> NumRows" "n \<le> NumCols" by (simp_all add: n_def)
  show ?thesis
  proof (cases "r = c")
    case True
    then have "r < n" using assms(2,3) by (simp add: n_def)
    moreover have "inj_on ?t (set [0..<n])"
      using n by (auto simp: inj_on_def dest!: slot_inj [rotated -1])
    ultimately have "fold (\<lambda>i M. M[?t i := 1]) [0..<n] Z ! ?t r = 1"
      using assms(2,3) True by (intro fold_update_hit) (simp_all add: Z_def slot_less)
    then show ?thesis using True by (simp add: res elem_def)
  next
    case False
    have "slot lay NumRows NumCols r c \<notin> ?t ` set [0..<n]"
      using False assms(2,3) n by (auto dest!: slot_inj [rotated -1])
    then have "fold (\<lambda>i M. M[?t i := 1]) [0..<n] Z ! slot lay NumRows NumCols r c
                 = Z ! slot lay NumRows NumCols r c"
      by (rule fold_update_other)
    then show ?thesis using False assms(2,3) by (simp add: res elem_def Z_def slot_less)
  qed
qed

lemma length_Identity: "length (Identity lay NumRows NumCols) = NumRows * NumCols"
  by (simp add: Identity_def length_MakeIdentity Matrix_default_eq)

lemma elem_Identity:
  "r < NumRows \<Longrightarrow> c < NumCols \<Longrightarrow>
     elem lay NumRows NumCols (Identity lay NumRows NumCols) r c = (if r = c then 1 else 0)"
  by (simp add: Identity_def elem_MakeIdentity Matrix_default_eq)

lemma pick_left:
  fixes x :: "nat \<Rightarrow> 'a::{zero,one,plus,times}"
  assumes "\<And>y::'a. 1 * y = y" "\<And>y::'a. 0 * y = 0" "\<And>y::'a. y + 0 = y" "\<And>y::'a. 0 + y = y"
  shows "fold (\<lambda>i acc. acc + (if r = i then 1 else 0) * x i) [0..<n] 0 = (if r < n then x r else 0)"
  by (induction n) (auto simp: assms less_Suc_eq)

lemma pick_right:
  fixes x :: "nat \<Rightarrow> 'a::{zero,one,plus,times}"
  assumes "\<And>y::'a. y * 1 = y" "\<And>y::'a. y * 0 = 0" "\<And>y::'a. y + 0 = y" "\<And>y::'a. 0 + y = y"
  shows "fold (\<lambda>i acc. acc + x i * (if i = c then 1 else 0)) [0..<n] 0 = (if c < n then x c else 0)"
  by (induction n) (auto simp: assms less_Suc_eq)

lemma Identity_eq_MakeIdentity:
  assumes "length I0 = NumRows * NumCols"
  shows "MakeIdentity lay NumRows NumCols I0 = Identity lay NumRows NumCols"
  using assms
  by (intro table_eqI [of _ NumRows NumCols _ lay])
     (simp_all add: length_MakeIdentity length_Identity elem_MakeIdentity elem_Identity)

text \<open>
  C10: the square identity, made by \<^verbatim>\<open>MakeIdentity\<close> from any \<open>N \<times> N\<close> matrix or returned
  by \<^verbatim>\<open>Identity\<close>, is a left and a right identity of \<open>MultiplyAB\<close> for an element type in
  which \<open>1 * x = x\<close>, \<open>x * 1 = x\<close>, \<open>0 * x = 0\<close>, \<open>x * 0 = 0\<close>, \<open>x + 0 = x\<close> and
  \<open>0 + x = x\<close> hold: the accumulation starts with \<open>0 + \<dots>\<close>, and the right identity
  multiplies by one and by zero from the right.
\<close>

theorem Identity_MultiplyAB_two_sided:
  fixes M M' I0 :: "'a::{zero,one,plus,times} Table"
  assumes "length M = N * NumCols" "length M' = NumRows * N" "length I0 = N * N"
    and one: "\<And>x::'a. 1 * x = x" and zero: "\<And>x::'a. 0 * x = 0" and add: "\<And>x::'a. x + 0 = x"
    and add': "\<And>x::'a. 0 + x = x" and one': "\<And>x::'a. x * 1 = x" and zero': "\<And>x::'a. x * 0 = 0"
  shows "MakeIdentity lay N N I0 = Identity lay N N
       \<and> MultiplyAB lay N NumCols N (MakeIdentity lay N N I0) M = M
       \<and> MultiplyAB lay NumRows N N M' (MakeIdentity lay N N I0) = M'"
proof -
  have id: "MakeIdentity lay N N I0 = Identity lay N N"
    using assms(3) by (rule Identity_eq_MakeIdentity)
  have left: "MultiplyAB lay N NumCols N (Identity lay N N) M = M"
  proof (rule table_eqI [of _ N NumCols _ lay])
    fix r c assume rc: "r < N" "c < NumCols"
    have "fold (\<lambda>i acc. acc + elem lay N N (Identity lay N N) r i * elem lay N NumCols M i c) [0..<N] 0
        = fold (\<lambda>i acc. acc + (if r = i then 1 else 0) * elem lay N NumCols M i c) [0..<N] 0"
      using rc by (intro fold_cong) (simp_all add: elem_Identity)
    also have "\<dots> = elem lay N NumCols M r c"
      using rc pick_left [where x = "\<lambda>i. elem lay N NumCols M i c" and r = r and n = N, OF one zero add add'] by simp
    finally show "elem lay N NumCols (MultiplyAB lay N NumCols N (Identity lay N N) M) r c
                  = elem lay N NumCols M r c"
      using rc by (simp add: elem_MultiplyAB)
  qed (simp_all add: length_MultiplyAB assms(1))
  have right: "MultiplyAB lay NumRows N N M' (Identity lay N N) = M'"
  proof (rule table_eqI [of _ NumRows N _ lay])
    fix r c assume rc: "r < NumRows" "c < N"
    have "fold (\<lambda>i acc. acc + elem lay NumRows N M' r i * elem lay N N (Identity lay N N) i c) [0..<N] 0
        = fold (\<lambda>i acc. acc + elem lay NumRows N M' r i * (if i = c then 1 else 0)) [0..<N] 0"
      using rc by (intro fold_cong) (simp_all add: elem_Identity)
    also have "\<dots> = elem lay NumRows N M' r c"
      using rc pick_right [where x = "\<lambda>i. elem lay NumRows N M' r i" and c = c and n = N, OF one' zero' add add'] by simp
    finally show "elem lay NumRows N (MultiplyAB lay NumRows N N M' (Identity lay N N)) r c
                  = elem lay NumRows N M' r c"
      using rc by (simp add: elem_MultiplyAB)
  qed (simp_all add: length_MultiplyAB assms(2))
  show ?thesis using left right by (simp only: id simp_thms)
qed

theorem Identity_MultiplyAB_two_sided_witness:
  "length [1, 2, 3, 4, 5, 6 :: real] = 2 * 3 \<and> length [6, 5, 4, 3, 2, 1 :: real] = 3 * 2
   \<and> length [9, 8, 7, 6 :: real] = 2 * 2
   \<and> (\<forall>x::real. 1 * x = x) \<and> (\<forall>x::real. 0 * x = 0) \<and> (\<forall>x::real. x + 0 = x)
   \<and> (\<forall>x::real. 0 + x = x) \<and> (\<forall>x::real. x * 1 = x) \<and> (\<forall>x::real. x * 0 = 0)
   \<and> MakeIdentity ColMajor 2 2 [9, 8, 7, 6 :: real] = Identity ColMajor 2 2
   \<and> MultiplyAB ColMajor 2 3 2 (MakeIdentity ColMajor 2 2 [9, 8, 7, 6 :: real]) [1, 2, 3, 4, 5, 6 :: real]
       = [1, 2, 3, 4, 5, 6]
   \<and> MultiplyAB ColMajor 3 2 2 [6, 5, 4, 3, 2, 1 :: real] (MakeIdentity ColMajor 2 2 [9, 8, 7, 6 :: real])
       = [6, 5, 4, 3, 2, 1]"
proof -
  have T: "MakeIdentity ColMajor 2 2 [9, 8, 7, 6 :: real] = Identity ColMajor 2 2
   \<and> MultiplyAB ColMajor 2 3 2 (MakeIdentity ColMajor 2 2 [9, 8, 7, 6 :: real]) [1, 2, 3, 4, 5, 6 :: real]
       = [1, 2, 3, 4, 5, 6]
   \<and> MultiplyAB ColMajor 3 2 2 [6, 5, 4, 3, 2, 1 :: real] (MakeIdentity ColMajor 2 2 [9, 8, 7, 6 :: real])
       = [6, 5, 4, 3, 2, 1]"
    by (rule Identity_MultiplyAB_two_sided) simp_all
  have laws: "length [1, 2, 3, 4, 5, 6 :: real] = 2 * 3 \<and> length [6, 5, 4, 3, 2, 1 :: real] = 3 * 2
   \<and> length [9, 8, 7, 6 :: real] = 2 * 2
   \<and> (\<forall>x::real. 1 * x = x) \<and> (\<forall>x::real. 0 * x = 0) \<and> (\<forall>x::real. x + 0 = x)
   \<and> (\<forall>x::real. 0 + x = x) \<and> (\<forall>x::real. x * 1 = x) \<and> (\<forall>x::real. x * 0 = 0)"
    by simp
  show ?thesis using laws T by blast
qed

text \<open>
  The three laws \<open>1 * x = x\<close>, \<open>0 * x = 0\<close> and \<open>x + 0 = x\<close> alone are not enough: they hold
  for each of the three elements of \<open>Tri\<close>, and the product of the \<open>1 \<times> 1\<close> identity with
  the matrix \<open>[TOther]\<close> is \<open>[TZero]\<close>.
\<close>

theorem Identity_MultiplyAB_one_sided_laws_counterexample:
  "1 * TZero = TZero \<and> 1 * TOne = TOne \<and> 1 * TOther = TOther
   \<and> 0 * TZero = 0 \<and> 0 * TOne = 0 \<and> 0 * TOther = 0
   \<and> TZero + 0 = TZero \<and> TOne + 0 = TOne \<and> TOther + 0 = TOther
   \<and> MultiplyAB RowMajor 1 1 1 (Identity RowMajor 1 1) [TOther] = [TZero]
   \<and> MultiplyAB RowMajor 1 1 1 (Identity RowMajor 1 1) [TOther] \<noteq> [TOther]"
  by code_simp

section \<open>Homogeneous lift and projection\<close>

lemma length_HLift: "length (HLift lay N M) = Suc N * Suc N"
  by (simp add: HLift_def set_elem_def length_MakeIdentity Matrix_default_eq)

lemma elem_HLift:
  assumes "r < Suc N" "c < Suc N"
  shows "elem lay (Suc N) (Suc N) (HLift lay N M) r c
           = (if r < N \<and> c < N then elem lay N N M r c else if r = c then 1 else 0)"
proof -
  define I :: "'a list" where "I = MakeIdentity lay (Suc N) (Suc N) (Matrix_default lay (Suc N) (Suc N))"
  have lenI: "length I = Suc N * Suc N"
    unfolding I_def by (intro length_MakeIdentity) (simp add: Matrix_default_eq)
  have res: "HLift lay N M
      = fold (\<lambda>r. fold (\<lambda>c result. result[slot lay (Suc N) (Suc N) r c := elem lay N N M r c]) [0..<N])
          [0..<N] I"
    by (simp add: HLift_def set_elem_def I_def)
  show ?thesis
  proof (cases "r < N \<and> c < N")
    case True
    have "fold (\<lambda>r. fold (\<lambda>c result. result[slot lay (Suc N) (Suc N) r c := elem lay N N M r c]) [0..<N])
            [0..<N] I ! slot lay (Suc N) (Suc N) r c = elem lay N N M r c"
    proof (rule fold2_hit)
      show "slot lay (Suc N) (Suc N) r c < length I"
        using assms slot_less [of r "Suc N" c "Suc N" lay] by (simp only: lenI)
    qed (use True in \<open>auto dest!: slot_inj [rotated -1]\<close>)
    then show ?thesis using True by (simp add: res elem_def)
  next
    case False
    have "fold (\<lambda>r. fold (\<lambda>c result. result[slot lay (Suc N) (Suc N) r c := elem lay N N M r c]) [0..<N])
            [0..<N] I ! slot lay (Suc N) (Suc N) r c = I ! slot lay (Suc N) (Suc N) r c"
      using False assms by (intro fold2_other) (auto dest!: slot_inj [rotated -1])
    moreover have "elem lay (Suc N) (Suc N) I r c = (if r = c then 1 else 0)"
      unfolding I_def using assms by (intro elem_MakeIdentity) (simp_all add: Matrix_default_eq)
    ultimately show ?thesis using False by (auto simp add: res elem_def)
  qed
qed

lemma length_HProject: "length (HProject lay N M) = (N - 1) * (N - 1)"
  by (simp add: HProject_def set_elem_def Matrix_default_eq)

lemma elem_HProject:
  assumes "r < N - 1" "c < N - 1"
  shows "elem lay (N - 1) (N - 1) (HProject lay N M) r c = elem lay N N M r c"
proof -
  have "fold (\<lambda>r. fold (\<lambda>c result. result[slot lay (N - 1) (N - 1) r c := elem lay N N M r c]) [0..<N - 1])
          [0..<N - 1] (replicate ((N - 1) * (N - 1)) 0) ! slot lay (N - 1) (N - 1) r c
        = elem lay N N M r c"
    using assms by (intro fold2_hit) (auto dest: slot_inj simp: slot_less)
  then show ?thesis by (simp add: HProject_def set_elem_def Matrix_default_eq elem_def)
qed

lemma elem_HProject_Suc:
  assumes "r < N" "c < N"
  shows "elem lay N N (HProject lay (Suc N) X) r c = elem lay (Suc N) (Suc N) X r c"
  using assms elem_HProject [of r "Suc N" c lay X] by simp

text \<open>
  C9: for \<open>N \<ge> 1\<close>, \<open>HLift M\<close> is the \<open>(N + 1) \<times> (N + 1)\<close> matrix whose upper left block
  is \<open>M\<close>, whose last diagonal entry is one and whose other entries are zero; \<open>HProject\<close>
  extracts the upper left block, and \<open>HProject (HLift M)\<close> has the storage of \<open>M\<close>.
\<close>

theorem HProject_HLift:
  assumes "1 \<le> N" "length M = N * N"
  shows "length (HLift lay N M) = (N + 1) * (N + 1)
       \<and> (\<forall>r c. r < N + 1 \<and> c < N + 1 \<longrightarrow>
            elem lay (N + 1) (N + 1) (HLift lay N M) r c
              = (if r < N \<and> c < N then elem lay N N M r c else if r = N \<and> c = N then 1 else 0))
       \<and> (\<forall>r c. r < N \<and> c < N \<longrightarrow>
            elem lay N N (HProject lay (N + 1) (HLift lay N M)) r c
              = elem lay (N + 1) (N + 1) (HLift lay N M) r c)
       \<and> HProject lay (N + 1) (HLift lay N M) = M"
proof -
  have "HProject lay (Suc N) (HLift lay N M) = M"
  proof (rule table_eqI [of _ N N _ lay])
    show "length (HProject lay (Suc N) (HLift lay N M)) = N * N"
      using length_HProject [of lay "Suc N"] by simp
  qed (simp_all add: assms(2) elem_HProject_Suc elem_HLift)
  moreover have "elem lay (Suc N) (Suc N) (HLift lay N M) r c
              = (if r < N \<and> c < N then elem lay N N M r c else if r = N \<and> c = N then 1 else 0)"
    if "r < Suc N" "c < Suc N" for r c
    using that elem_HLift [of r N c lay M] by auto
  ultimately show ?thesis by (simp add: length_HLift elem_HProject_Suc)
qed

theorem HProject_HLift_witness:
  "(1::nat) \<le> 2 \<and> length [1, 2, 3, 4 :: real] = 2 * 2
   \<and> length (HLift ColMajor 2 [1, 2, 3, 4 :: real]) = (2 + 1) * (2 + 1)
   \<and> elem ColMajor (2 + 1) (2 + 1) (HLift ColMajor 2 [1, 2, 3, 4 :: real]) 2 2 = 1
   \<and> elem ColMajor (2 + 1) (2 + 1) (HLift ColMajor 2 [1, 2, 3, 4 :: real]) 2 1 = 0
   \<and> elem ColMajor (2 + 1) (2 + 1) (HLift ColMajor 2 [1, 2, 3, 4 :: real]) 0 1
       = elem ColMajor 2 2 [1, 2, 3, 4 :: real] 0 1
   \<and> HProject ColMajor (2 + 1) (HLift ColMajor 2 [1, 2, 3, 4 :: real]) = [1, 2, 3, 4]"
proof -
  have h: "(1::nat) \<le> 2" "length [1, 2, 3, 4 :: real] = 2 * 2" by simp_all
  note T = HProject_HLift [OF h, of ColMajor]
  have el: "elem ColMajor (2 + 1) (2 + 1) (HLift ColMajor 2 [1, 2, 3, 4 :: real]) r c
              = (if r < 2 \<and> c < 2 then elem ColMajor 2 2 [1, 2, 3, 4 :: real] r c
                 else if r = 2 \<and> c = 2 then 1 else 0)"
    if "r < 2 + 1 \<and> c < 2 + 1" for r c
    using T that by blast
  show ?thesis using h T el [of 2 2] el [of 2 1] el [of 0 1] by simp
qed

section \<open>Basis matrices\<close>

lemma Zero_eq: "Zero lay NumRows NumCols = replicate (NumRows * NumCols) 0"
  by (simp add: Zero_def Matrix_default_eq MakeZero_eq)

lemma MakeUnit_eq:
  assumes "length M = NumRows * NumCols"
  shows "MakeUnit lay NumRows NumCols M r c =
     (if 0 \<le> r \<and> r < int NumRows \<and> 0 \<le> c \<and> c < int NumCols
      then (replicate (NumRows * NumCols) 0)[slot lay NumRows NumCols (nat r) (nat c) := 1]
      else replicate (NumRows * NumCols) 0)"
  using assms by (simp add: MakeUnit_def Let_def MakeZero_eq set_elem_def)

text \<open>
  C6: \<^verbatim>\<open>Unit(r, c)\<close> and the constructor \<^verbatim>\<open>Matrix(r, c)\<close> give what
  \<^verbatim>\<open>MakeUnit(r, c)\<close> makes of any matrix: the element at a valid \<open>(r', c')\<close> is one when
  \<open>(r', c') = (r, c)\<close> and zero otherwise, and for \<open>r\<close> or \<open>c\<close> out of range the result is the
  zero matrix. The operation is total: no branch of the source raises.
\<close>

theorem MakeUnit_basis:
  fixes M :: "'a::{zero,one} Table"
  assumes "length M = NumRows * NumCols"
  shows "Unit lay NumRows NumCols r c = MakeUnit lay NumRows NumCols M r c
       \<and> Matrix_unit lay NumRows NumCols r c = MakeUnit lay NumRows NumCols M r c
       \<and> length (MakeUnit lay NumRows NumCols M r c) = NumRows * NumCols
       \<and> (\<forall>r' c'. r' < NumRows \<and> c' < NumCols \<longrightarrow>
            elem lay NumRows NumCols (MakeUnit lay NumRows NumCols M r c) r' c'
              = (if int r' = r \<and> int c' = c then 1 else 0))
       \<and> (\<not> (0 \<le> r \<and> r < int NumRows \<and> 0 \<le> c \<and> c < int NumCols) \<longrightarrow>
            MakeUnit lay NumRows NumCols M r c = Zero lay NumRows NumCols)"
proof -
  have same: "Unit lay NumRows NumCols r c = MakeUnit lay NumRows NumCols M r c"
    "Matrix_unit lay NumRows NumCols r c = MakeUnit lay NumRows NumCols M r c"
    using assms by (simp_all add: Unit_def Matrix_unit_def MakeUnit_eq Matrix_default_eq Table_ctor_eq)
  have len: "length (MakeUnit lay NumRows NumCols M r c) = NumRows * NumCols"
    using assms by (simp add: MakeUnit_eq)
  have out: "MakeUnit lay NumRows NumCols M r c = Zero lay NumRows NumCols"
    if "\<not> (0 \<le> r \<and> r < int NumRows \<and> 0 \<le> c \<and> c < int NumCols)"
    using that assms by (auto simp add: MakeUnit_eq Zero_eq)
  have el: "elem lay NumRows NumCols (MakeUnit lay NumRows NumCols M r c) r' c'
              = (if int r' = r \<and> int c' = c then 1 else 0)"
    if rc': "r' < NumRows" "c' < NumCols" for r' c'
  proof (cases "0 \<le> r \<and> r < int NumRows \<and> 0 \<le> c \<and> c < int NumCols")
    case True
    then have v: "nat r < NumRows" "nat c < NumCols" by auto
    have res: "MakeUnit lay NumRows NumCols M r c
        = (replicate (NumRows * NumCols) 0)[slot lay NumRows NumCols (nat r) (nat c) := 1]"
      using True assms by (simp add: MakeUnit_eq)
    show ?thesis
    proof (cases "int r' = r \<and> int c' = c")
      case hit: True
      then have "nat r = r'" "nat c = c'" by auto
      then show ?thesis using hit rc' by (simp add: res elem_def slot_less)
    next
      case miss: False
      then have "\<not> (nat r = r' \<and> nat c = c')" using True by auto
      then have "slot lay NumRows NumCols (nat r) (nat c) \<noteq> slot lay NumRows NumCols r' c'"
        using slot_inj [OF v rc'] by blast
      then show ?thesis using miss rc' by (auto simp add: res elem_def slot_less)
    qed
  next
    case False
    then have "\<not> (int r' = r \<and> int c' = c)" using rc' by auto
    then show ?thesis using False rc' assms by (auto simp add: MakeUnit_eq elem_def slot_less)
  qed
  show ?thesis using same len out el by blast
qed

theorem MakeUnit_basis_witness:
  "length [7, 8, 9, 10, 11, 12 :: real] = 2 * 3
   \<and> Unit ColMajor 2 3 1 2 = MakeUnit ColMajor 2 3 [7, 8, 9, 10, 11, 12 :: real] 1 2
   \<and> elem ColMajor 2 3 (MakeUnit ColMajor 2 3 [7, 8, 9, 10, 11, 12 :: real] 1 2) 1 2 = 1
   \<and> elem ColMajor 2 3 (MakeUnit ColMajor 2 3 [7, 8, 9, 10, 11, 12 :: real] 1 2) 0 2 = 0
   \<and> \<not> (0 \<le> (- 1 :: int) \<and> - 1 < int 2 \<and> 0 \<le> (3::int) \<and> 3 < int 3)
   \<and> MakeUnit ColMajor 2 3 [7, 8, 9, 10, 11, 12 :: real] (- 1) 3 = Zero ColMajor 2 3"
proof -
  have len: "length [7, 8, 9, 10, 11, 12 :: real] = 2 * 3" by simp
  note T = MakeUnit_basis [OF len, of ColMajor 1 2]
  note U = MakeUnit_basis [OF len, of ColMajor "- 1" 3]
  have el: "elem ColMajor 2 3 (MakeUnit ColMajor 2 3 [7, 8, 9, 10, 11, 12 :: real] 1 2) r' c'
              = (if int r' = 1 \<and> int c' = 2 then 1 else 0)"
    if "r' < 2 \<and> c' < 3" for r' c'
    using T that by blast
  have "MakeUnit ColMajor 2 3 [7, 8, 9, 10, 11, 12 :: real] (- 1) 3 = Zero ColMajor 2 3"
    using U by simp
  then show ?thesis using len T el [of 1 2] el [of 0 2] by simp
qed

section \<open>Division by a scalar\<close>

lemma lin_loop_map:
  assumes "length M = n"
  shows "fold (\<lambda>i M. set_lin M i (g (lin M i))) [0..<n] M = map g M"
proof -
  have "length (fold (\<lambda>i M. M[i := (\<lambda>i. g) i (M ! i)]) [0..<n] M) = length M \<and>
         (\<forall>j. fold (\<lambda>i M. M[i := (\<lambda>i. g) i (M ! i)]) [0..<n] M ! j
             = (if j < n then (\<lambda>i. g) j (M ! j) else M ! j))"
    using assms by (intro fold_lin_nth) simp
  then show ?thesis
    using assms by (intro nth_equalityI) (simp_all add: set_lin_def lin_def)
qed

text \<open>
  C5: \<open>M / 0\<close> and \<open>M /= 0\<close> give the zero matrix of the shape of \<open>M\<close>; for a scalar other
  than zero every element is multiplied by the reciprocal \<open>1 / scalar\<close>. The operation is
  total: no branch of the source raises.
\<close>

theorem div_scalar_zero_policy:
  fixes M :: "'a::{zero,one,times,inverse} Table"
  assumes "length M = NumRows * NumCols"
  shows "div_scalar NumRows NumCols M 0 = Zero lay NumRows NumCols
       \<and> div_assign NumRows NumCols M 0 = Zero lay NumRows NumCols
       \<and> (scalar \<noteq> 0 \<longrightarrow>
            div_scalar NumRows NumCols M scalar = map (\<lambda>x. x * (1 / scalar)) M
          \<and> div_assign NumRows NumCols M scalar = map (\<lambda>x. x * (1 / scalar)) M
          \<and> (\<forall>r c. r < NumRows \<and> c < NumCols \<longrightarrow>
                elem lay NumRows NumCols (div_scalar NumRows NumCols M scalar) r c
                  = elem lay NumRows NumCols M r c * (1 / scalar)))"
proof -
  have z: "div_assign NumRows NumCols M 0 = Zero lay NumRows NumCols"
    using MakeZero_eq [OF assms] by (simp add: div_assign_def Zero_eq MakeZero_def)
  have nz: "div_assign NumRows NumCols M scalar = map (\<lambda>x. x * (1 / scalar)) M" if "scalar \<noteq> 0"
    using that lin_loop_map [of M "NumRows * NumCols" "\<lambda>x. x * (1 / scalar)"] assms
    by (simp add: div_assign_def)
  have "elem lay NumRows NumCols (map (\<lambda>x. x * (1 / scalar)) M) r c
          = elem lay NumRows NumCols M r c * (1 / scalar)"
    if "r < NumRows" "c < NumCols" for r c
    using that assms by (simp add: elem_def slot_less)
  then show ?thesis using z nz by (simp add: div_scalar_def)
qed

theorem div_scalar_zero_policy_witness:
  "length [1, 2, 3, 4 :: real] = 2 * 2
   \<and> div_scalar 2 2 [1, 2, 3, 4 :: real] 0 = Zero ColMajor 2 2
   \<and> div_assign 2 2 [1, 2, 3, 4 :: real] 0 = Zero ColMajor 2 2
   \<and> (2::real) \<noteq> 0
   \<and> div_scalar 2 2 [1, 2, 3, 4 :: real] 2 = map (\<lambda>x. x * (1 / 2)) [1, 2, 3, 4]
   \<and> elem ColMajor 2 2 (div_scalar 2 2 [1, 2, 3, 4 :: real] 2) 0 1
       = elem ColMajor 2 2 [1, 2, 3, 4 :: real] 0 1 * (1 / 2)"
proof -
  have len: "length [1, 2, 3, 4 :: real] = 2 * 2" by simp
  have nz: "(2::real) \<noteq> 0" by simp
  note T = div_scalar_zero_policy [OF len, of ColMajor 2]
  have "(0::nat) < 2 \<and> (1::nat) < 2" by simp
  then have "elem ColMajor 2 2 (div_scalar 2 2 [1, 2, 3, 4 :: real] 2) 0 1
       = elem ColMajor 2 2 [1, 2, 3, 4 :: real] 0 1 * (1 / 2)"
    using T nz by blast
  then show ?thesis using len nz T by blast
qed

section \<open>The maximum norm\<close>

text \<open>
  C2: \<^verbatim>\<open>LInfinityNorm\<close> starts its running maximum with \<^verbatim>\<open>M[0]\<close> itself, not with its
  absolute value (\<^verbatim>\<open>L1Norm\<close> starts with \<^verbatim>\<open>std::fabs(M[0])\<close>). For the matrix with
  rows \<open>[-5, 1]\<close> and \<open>[2, 3]\<close> it returns 3 under either layout, although the element
  \<open>(0, 0)\<close> has absolute value 5.
\<close>

theorem LInfinityNorm_ignores_sign_of_first:
  "LInfinityNorm 2 2 (Matrix_array RowMajor 2 2 [- 5, 1, 2, 3 :: real]) = 3
   \<and> LInfinityNorm 2 2 (Matrix_array ColMajor 2 2 [- 5, 1, 2, 3 :: real]) = 3
   \<and> \<bar>elem RowMajor 2 2 (Matrix_array RowMajor 2 2 [- 5, 1, 2, 3 :: real]) 0 0\<bar> = 5
   \<and> \<bar>elem ColMajor 2 2 (Matrix_array ColMajor 2 2 [- 5, 1, 2, 3 :: real]) 0 0\<bar> = 5
   \<and> L1Norm 2 2 (Matrix_array RowMajor 2 2 [- 5, 1, 2, 3 :: real]) = 11"
  by code_simp

section \<open>The solver adapter\<close>

text \<open>
  C1: \<^verbatim>\<open>Determinant\<close> and \<^verbatim>\<open>Inverse\<close> hand the elimination functor the storage behind
  \<^verbatim>\<open>&M[0]\<close>. Its element \<open>r * N + c\<close> is \<open>M(r, c)\<close> under the row-major policy and
  \<open>M(c, r)\<close> under the column-major policy: the buffer is the row-major flattening of the
  matrix in the first case and of its transpose in the second.
\<close>

theorem solver_receives_storage:
  assumes "r < N" "c < N"
  shows "Determinant lay N GaussianElimination M
           = snd (snd (GaussianElimination N (elements N M) None))
       \<and> snd (Inverse lay N GaussianElimination M)
           = fst (GaussianElimination N (elements N M) (Some (elements N (Matrix_default lay N N))))
       \<and> elements N M ! (r * N + c)
           = (case lay of RowMajor \<Rightarrow> elem lay N N M r c | ColMajor \<Rightarrow> elem lay N N M c r)"
proof -
  have "r * N + c < Suc r * N" using assms(2) by simp
  also have "\<dots> \<le> N * N" using assms(1) by (intro mult_le_mono1) simp
  finally have "elements N M ! (r * N + c) = M ! (r * N + c)"
    by (simp add: elements_def lin_def)
  then show ?thesis
    by (cases lay) (simp_all add: Determinant_def Inverse_def Let_def elem_def slot_def split: prod.splits)
qed

theorem solver_receives_storage_witness:
  "(0::nat) < 2 \<and> (1::nat) < 2
   \<and> Determinant ColMajor 2 (\<lambda>N buf inv. (True, inv, buf ! 1)) [1, 3, 2, 4 :: real]
       = snd (snd ((\<lambda>N buf inv. (True, inv, buf ! 1)) 2 (elements 2 [1, 3, 2, 4 :: real]) None))
   \<and> elements 2 [1, 3, 2, 4 :: real] ! (0 * 2 + 1) = elem ColMajor 2 2 [1, 3, 2, 4 :: real] 1 0
   \<and> elements 2 [1, 3, 2, 4 :: real] ! (0 * 2 + 1) = elem RowMajor 2 2 [1, 3, 2, 4 :: real] 0 1"
proof -
  have h: "(0::nat) < 2" "(1::nat) < 2" by simp_all
  note C = solver_receives_storage
    [OF h, of ColMajor "\<lambda>N buf inv. (True, inv, buf ! 1)" "[1, 3, 2, 4 :: real]"]
  note R = solver_receives_storage
    [OF h, of RowMajor "\<lambda>N buf inv. (True, inv, buf ! 1)" "[1, 3, 2, 4 :: real]"]
  show ?thesis using h C R by simp
qed

text \<open>
  Under the column-major policy the buffer is not the row-major flattening: for the matrix
  with rows \<open>[1, 2]\<close> and \<open>[3, 4]\<close> its element \<open>0 * 2 + 1\<close> is 3, and \<open>M(0, 1)\<close> is 2.
\<close>

theorem solver_buffer_column_major_counterexample:
  "elements 2 (Matrix_array ColMajor 2 2 [1, 2, 3, 4 :: real]) ! (0 * 2 + 1)
     \<noteq> elem ColMajor 2 2 (Matrix_array ColMajor 2 2 [1, 2, 3, 4 :: real]) 0 1"
  by code_simp

section \<open>Construction from an initializer list\<close>

lemma int32_of_size_small: "n < 2 ^ 31 \<Longrightarrow> int32_of_size n = int n"
proof -
  assume "n < 2 ^ 31"
  then have "int n < 2 ^ 31" by (metis of_nat_less_iff of_nat_numeral of_nat_power)
  then show ?thesis by (simp add: int32_of_size_def)
qed

lemma row_fold_length [simp]:
  "length (fold (\<lambda>c M. M[slot lay NumRows NumCols r c := g c]) cs M) = length M"
  by (rule length_fold_update)

lemma row_fold_elem:
  assumes "length M = NumRows * NumCols" "r < NumRows" "r' < NumRows" "c' < NumCols"
    and "\<And>c. c \<in> set cs \<Longrightarrow> c < NumCols"
  shows "elem lay NumRows NumCols (fold (\<lambda>c M. M[slot lay NumRows NumCols r c := g c]) cs M) r' c'
           = (if r' = r \<and> c' \<in> set cs then g c' else elem lay NumRows NumCols M r' c')"
proof (cases "r' = r \<and> c' \<in> set cs")
  case True
  have "inj_on (slot lay NumRows NumCols r) (set cs)"
    using assms(2,5) by (auto simp: inj_on_def dest!: slot_inj [rotated -1])
  then have "fold (\<lambda>c M. M[slot lay NumRows NumCols r c := g c]) cs M ! slot lay NumRows NumCols r c' = g c'"
    using True assms(1,2,4) by (intro fold_update_hit) (simp_all add: slot_less)
  then show ?thesis using True by (simp add: elem_def)
next
  case False
  have "slot lay NumRows NumCols r' c' \<notin> slot lay NumRows NumCols r ` set cs"
    using False assms(2,3,4,5) by (auto dest!: slot_inj [rotated -1])
  then have "fold (\<lambda>c M. M[slot lay NumRows NumCols r c := g c]) cs M ! slot lay NumRows NumCols r' c'
      = M ! slot lay NumRows NumCols r' c'"
    by (rule fold_update_other)
  then show ?thesis using False by (auto simp add: elem_def)
qed

lemma init_cols_closed:
  assumes "c \<le> NumCols"
  shows "init_cols lay NumRows NumCols (int (length values)) r (c, i, drop i values, M)
     = (c + min (NumCols - c) (length values - i),
        i + min (NumCols - c) (length values - i),
        drop (i + min (NumCols - c) (length values - i)) values,
        fold (\<lambda>j M. M[slot lay NumRows NumCols r j := values ! (i + (j - c))])
          [c..<c + min (NumCols - c) (length values - i)] M)"
  using assms
proof (induction "NumCols - c" arbitrary: c i M)
  case 0
  then show ?case by simp
next
  case (Suc d)
  then have c: "c < NumCols" by simp
  show ?case
  proof (cases "i < length values")
    case False
    then show ?thesis using c by simp
  next
    case True
    define n where "n = min (NumCols - Suc c) (length values - Suc i)"
    define hi where "hi = Suc c + n"
    define M1 where "M1 = M[slot lay NumRows NumCols r c := values ! i]"
    have m: "c + min (NumCols - c) (length values - i) = hi"
      "i + min (NumCols - c) (length values - i) = Suc i + n"
      using c True by (simp_all add: n_def hi_def)
    have hd: "hd (drop i values) = values ! i" "tl (drop i values) = drop (Suc i) values"
      using True by (simp_all add: hd_drop_conv_nth drop_Suc tl_drop)
    have unfold: "init_cols lay NumRows NumCols (int (length values)) r (c, i, drop i values, M)
       = init_cols lay NumRows NumCols (int (length values)) r (Suc c, Suc i, drop (Suc i) values, M1)"
      using c True by (simp add: hd set_elem_def M1_def)
    have IH: "init_cols lay NumRows NumCols (int (length values)) r (Suc c, Suc i, drop (Suc i) values, M1)
       = (hi, Suc i + n, drop (Suc i + n) values,
          fold (\<lambda>j M. M[slot lay NumRows NumCols r j := values ! (Suc i + (j - Suc c))]) [Suc c..<hi] M1)"
      unfolding hi_def n_def using Suc.hyps(2) c by (intro Suc.hyps(1)) simp_all
    have "fold (\<lambda>j M. M[slot lay NumRows NumCols r j := values ! (Suc i + (j - Suc c))]) [Suc c..<hi] M1
        = fold (\<lambda>j M. M[slot lay NumRows NumCols r j := values ! (i + (j - c))]) [Suc c..<hi] M1"
    proof (rule fold_cong)
      fix j assume "j \<in> set [Suc c..<hi]"
      then have "Suc c \<le> j" by (simp only: set_upt atLeastLessThan_iff)
      then have "Suc i + (j - Suc c) = i + (j - c)" by arith
      then show "(\<lambda>M. M[slot lay NumRows NumCols r j := values ! (Suc i + (j - Suc c))])
          = (\<lambda>M. M[slot lay NumRows NumCols r j := values ! (i + (j - c))])"
        by (simp only:)
    qed (rule refl)+
    moreover have "[c..<hi] = c # [Suc c..<hi]"
      by (rule upt_conv_Cons) (simp add: hi_def)
    ultimately have step:
      "fold (\<lambda>j M. M[slot lay NumRows NumCols r j := values ! (i + (j - c))]) [c..<hi] M
       = fold (\<lambda>j M. M[slot lay NumRows NumCols r j := values ! (Suc i + (j - Suc c))]) [Suc c..<hi] M1"
      by (simp add: M1_def)
    show ?thesis by (simp only: unfold IH m step)
  qed
qed

lemma row_copy_elem:
  assumes "length M = NumRows * NumCols" "r < NumRows" "\<rho> < NumRows" "c < NumCols" "n \<le> NumCols"
  shows "elem lay NumRows NumCols
           (fold (\<lambda>j M. M[slot lay NumRows NumCols r j := g j]) [m..<n] M) \<rho> c
      = (if \<rho> = r \<and> m \<le> c \<and> c < n then g c else elem lay NumRows NumCols M \<rho> c)"
proof -
  have "elem lay NumRows NumCols (fold (\<lambda>j M. M[slot lay NumRows NumCols r j := g j]) [m..<n] M) \<rho> c
      = (if \<rho> = r \<and> c \<in> set [m..<n] then g c else elem lay NumRows NumCols M \<rho> c)"
    using assms by (intro row_fold_elem) simp_all
  then show ?thesis by simp
qed

lemma init_rows_step:
  assumes "r < NumRows"
  shows "init_rows lay NumRows NumCols (int (length values)) (r, r * NumCols, drop (r * NumCols) values, M)
     = (let n = min NumCols (length values - r * NumCols);
            M1 = fold (\<lambda>j M. M[slot lay NumRows NumCols r j := values ! (r * NumCols + j)]) [0..<n] M
        in if n < NumCols
           then (Suc r, fold (\<lambda>c M. M[slot lay NumRows NumCols r c := 0]) [n..<NumCols] M1)
           else init_rows lay NumRows NumCols (int (length values))
                  (Suc r, Suc r * NumCols, drop (Suc r * NumCols) values, M1))"
proof -
  define n where "n = min NumCols (length values - r * NumCols)"
  define M1 where
    "M1 = fold (\<lambda>j M. M[slot lay NumRows NumCols r j := values ! (r * NumCols + j)]) [0..<n] M"
  have cols: "init_cols lay NumRows NumCols (int (length values)) r
                (0, r * NumCols, drop (r * NumCols) values, M)
              = (n, r * NumCols + n, drop (r * NumCols + n) values, M1)"
    using init_cols_closed [of 0 NumCols lay NumRows "values" r "r * NumCols" M]
    by (simp add: n_def M1_def)
  have next_row: "r * NumCols + NumCols = Suc r * NumCols" by simp
  have step: "init_rows lay NumRows NumCols (int (length values)) (r, r * NumCols, drop (r * NumCols) values, M)
     = (if n < NumCols
           then (Suc r, fold (\<lambda>c M. M[slot lay NumRows NumCols r c := 0]) [n..<NumCols] M1)
           else init_rows lay NumRows NumCols (int (length values))
                  (Suc r, r * NumCols + n, drop (r * NumCols + n) values, M1))"
    using assms
    by (subst init_rows.simps) (simp only: cols if_True prod.case set_elem_def)
  have "init_rows lay NumRows NumCols (int (length values)) (r, r * NumCols, drop (r * NumCols) values, M)
     = (if n < NumCols
           then (Suc r, fold (\<lambda>c M. M[slot lay NumRows NumCols r c := 0]) [n..<NumCols] M1)
           else init_rows lay NumRows NumCols (int (length values))
                  (Suc r, Suc r * NumCols, drop (Suc r * NumCols) values, M1))"
  proof (cases "n < NumCols")
    case True
    then show ?thesis by (simp only: step if_True)
  next
    case False
    then have "n = NumCols" by (simp add: n_def)
    then have "r * NumCols + n = Suc r * NumCols" by simp
    then show ?thesis using False by (simp only: step if_False)
  qed
  then show ?thesis by (simp only: Let_def n_def [symmetric] M1_def [symmetric])
qed

lemma init_rows_spec:
  assumes "r \<le> NumRows" "length M = NumRows * NumCols"
  shows "\<exists>r' M'. init_rows lay NumRows NumCols (int (length values))
                    (r, r * NumCols, drop (r * NumCols) values, M) = (r', M')
           \<and> r \<le> r' \<and> r' \<le> NumRows \<and> length M' = NumRows * NumCols
           \<and> (r' < NumRows \<longrightarrow> length values \<le> r' * NumCols)
           \<and> (\<forall>\<rho> c. \<rho> < NumRows \<and> c < NumCols \<longrightarrow>
                 elem lay NumRows NumCols M' \<rho> c
                   = (if r \<le> \<rho> \<and> \<rho> < r'
                      then (if \<rho> * NumCols + c < length values then values ! (\<rho> * NumCols + c) else 0)
                      else elem lay NumRows NumCols M \<rho> c))"
  using assms
proof (induction "NumRows - r" arbitrary: r M)
  case 0
  then have "r = NumRows" by simp
  then have "init_rows lay NumRows NumCols (int (length values))
                    (r, r * NumCols, drop (r * NumCols) values, M) = (r, M)"
    by (subst init_rows.simps) simp
  then show ?case using "0.prems" \<open>r = NumRows\<close> by simp
next
  case (Suc d)
  then have r: "r < NumRows" by simp
  define k where "k = length values"
  define n where "n = min NumCols (k - r * NumCols)"
  define M1 where
    "M1 = fold (\<lambda>j M. M[slot lay NumRows NumCols r j := values ! (r * NumCols + j)]) [0..<n] M"
  have len1: "length M1 = NumRows * NumCols"
    using Suc.prems(2) by (simp add: M1_def)
  have nle: "n \<le> NumCols" by (simp add: n_def)
  have el1: "elem lay NumRows NumCols M1 \<rho> c
      = (if \<rho> = r \<and> c < n then values ! (r * NumCols + c) else elem lay NumRows NumCols M \<rho> c)"
    if "\<rho> < NumRows" "c < NumCols" for \<rho> c
    unfolding M1_def using row_copy_elem [OF Suc.prems(2) r that nle, of lay _ 0] by simp
  note step = init_rows_step [OF r, of lay NumCols "values" M, unfolded Let_def,
      folded k_def, folded n_def, folded M1_def]
  show ?case
  proof (cases "n < NumCols")
    case True
    define M2 where "M2 = fold (\<lambda>c M. M[slot lay NumRows NumCols r c := 0]) [n..<NumCols] M1"
    have n: "n = k - r * NumCols" "k < r * NumCols + NumCols"
      using True by (auto simp: n_def)
    have res: "init_rows lay NumRows NumCols (int k)
                 (r, r * NumCols, drop (r * NumCols) values, M) = (Suc r, M2)"
      using True by (simp only: step if_True M2_def)
    have el2: "elem lay NumRows NumCols M2 \<rho> c
        = (if \<rho> = r \<and> n \<le> c then 0 else elem lay NumRows NumCols M1 \<rho> c)"
      if "\<rho> < NumRows" "c < NumCols" for \<rho> c
      unfolding M2_def using row_copy_elem [OF len1 r that le_refl, of lay _ n] that(2) by simp
    have target: "elem lay NumRows NumCols M2 \<rho> c
                   = (if r \<le> \<rho> \<and> \<rho> < Suc r
                      then (if \<rho> * NumCols + c < k then values ! (\<rho> * NumCols + c) else 0)
                      else elem lay NumRows NumCols M \<rho> c)"
      if "\<rho> < NumRows" "c < NumCols" for \<rho> c
    proof (cases "\<rho> = r")
      case True
      have "c < n \<longleftrightarrow> r * NumCols + c < k" using n(1) by auto
      then show ?thesis using True that by (auto simp add: el2 el1)
    next
      case False
      then show ?thesis using that by (auto simp: el2 el1)
    qed
    have "length M2 = NumRows * NumCols" by (simp add: M2_def len1)
    moreover have "k \<le> Suc r * NumCols" using n(2) by simp
    moreover have "Suc r \<le> NumRows" "r \<le> Suc r" using r by simp_all
    ultimately show ?thesis unfolding k_def [symmetric] using res target by blast
  next
    case False
    then have "NumCols \<le> k - r * NumCols" by (simp add: n_def)
    then have "Suc r * NumCols \<le> k" by (cases "NumCols = 0") auto
    then have n: "n = NumCols" "Suc r * NumCols \<le> k" using False nle by simp_all
    have res: "init_rows lay NumRows NumCols (int k)
                 (r, r * NumCols, drop (r * NumCols) values, M)
               = init_rows lay NumRows NumCols (int k)
                   (Suc r, Suc r * NumCols, drop (Suc r * NumCols) values, M1)"
      using False by (simp only: step if_False)
    have "\<exists>r' M'. init_rows lay NumRows NumCols (int (length values))
                    (Suc r, Suc r * NumCols, drop (Suc r * NumCols) values, M1) = (r', M')
           \<and> Suc r \<le> r' \<and> r' \<le> NumRows \<and> length M' = NumRows * NumCols
           \<and> (r' < NumRows \<longrightarrow> length values \<le> r' * NumCols)
           \<and> (\<forall>\<rho> c. \<rho> < NumRows \<and> c < NumCols \<longrightarrow>
                 elem lay NumRows NumCols M' \<rho> c
                   = (if Suc r \<le> \<rho> \<and> \<rho> < r'
                      then (if \<rho> * NumCols + c < length values then values ! (\<rho> * NumCols + c) else 0)
                      else elem lay NumRows NumCols M1 \<rho> c))"
    proof (rule Suc.hyps(1))
      show "d = NumRows - Suc r" using Suc.hyps(2) by simp
      show "Suc r \<le> NumRows" using r by simp
      show "length M1 = NumRows * NumCols" by (rule len1)
    qed
    then obtain r' M' where
      run: "init_rows lay NumRows NumCols (int k)
              (Suc r, Suc r * NumCols, drop (Suc r * NumCols) values, M1) = (r', M')"
      and later: "Suc r \<le> r'"
      and bounds: "r' \<le> NumRows" "length M' = NumRows * NumCols"
        "r' < NumRows \<longrightarrow> k \<le> r' * NumCols"
      and el': "\<And>\<rho> c. \<rho> < NumRows \<Longrightarrow> c < NumCols \<Longrightarrow>
                 elem lay NumRows NumCols M' \<rho> c
                   = (if Suc r \<le> \<rho> \<and> \<rho> < r'
                      then (if \<rho> * NumCols + c < k then values ! (\<rho> * NumCols + c) else 0)
                      else elem lay NumRows NumCols M1 \<rho> c)"
      unfolding k_def [symmetric] by blast
    have full: "r * NumCols + c < k" if "c < NumCols" for c
      using that n(2) by simp
    have target: "elem lay NumRows NumCols M' \<rho> c
                   = (if r \<le> \<rho> \<and> \<rho> < r'
                      then (if \<rho> * NumCols + c < k then values ! (\<rho> * NumCols + c) else 0)
                      else elem lay NumRows NumCols M \<rho> c)"
      if "\<rho> < NumRows" "c < NumCols" for \<rho> c
    proof (cases "\<rho> = r")
      case True
      then show ?thesis using that later full [of c] by (simp add: el' el1 n(1))
    next
      case False
      then show ?thesis using that later by (auto simp: el' el1)
    qed
    have "init_rows lay NumRows NumCols (int k)
                 (r, r * NumCols, drop (r * NumCols) values, M) = (r', M')"
      by (simp only: res run)
    moreover have "r \<le> r'" using later by simp
    ultimately show ?thesis unfolding k_def [symmetric] using bounds target by blast
  qed
qed

lemma init_rows_from_start:
  fixes vs :: "'a::zero list"
  assumes "Z = replicate (NumRows * NumCols) 0"
  shows "\<exists>r' M'. init_rows lay NumRows NumCols (int (length vs)) (0, 0, vs, Z) = (r', M')
         \<and> r' \<le> NumRows \<and> length M' = NumRows * NumCols
         \<and> (r' < NumRows \<longrightarrow> length vs \<le> r' * NumCols)
         \<and> (\<forall>\<rho> c. \<rho> < NumRows \<and> c < NumCols \<longrightarrow>
               elem lay NumRows NumCols M' \<rho> c
                 = (if \<rho> < r'
                    then (if \<rho> * NumCols + c < length vs then vs ! (\<rho> * NumCols + c) else 0)
                    else 0))"
proof -
  have len: "length Z = NumRows * NumCols" by (simp add: assms)
  have "0 \<le> NumRows" by simp
  from init_rows_spec [OF this len, of lay vs]
  obtain r' M' where
    run: "init_rows lay NumRows NumCols (int (length vs)) (0, 0 * NumCols, drop (0 * NumCols) vs, Z) = (r', M')"
    and rest: "r' \<le> NumRows" "length M' = NumRows * NumCols"
         "r' < NumRows \<longrightarrow> length vs \<le> r' * NumCols"
    and el: "\<forall>\<rho> c. \<rho> < NumRows \<and> c < NumCols \<longrightarrow>
               elem lay NumRows NumCols M' \<rho> c
                 = (if 0 \<le> \<rho> \<and> \<rho> < r'
                    then (if \<rho> * NumCols + c < length vs then vs ! (\<rho> * NumCols + c) else 0)
                    else elem lay NumRows NumCols Z \<rho> c)"
    by blast
  have run': "init_rows lay NumRows NumCols (int (length vs)) (0, 0, vs, Z) = (r', M')"
    using run by simp
  have "elem lay NumRows NumCols M' \<rho> c
                 = (if \<rho> < r'
                    then (if \<rho> * NumCols + c < length vs then vs ! (\<rho> * NumCols + c) else 0)
                    else 0)" if "\<rho> < NumRows" "c < NumCols" for \<rho> c
    using el that by (simp add: assms elem_zeros)
  then show ?thesis using run' rest by blast
qed

lemma rows_zero_elem:
  assumes "length M = NumRows * NumCols" "\<rho> < NumRows" "c < NumCols"
  shows "elem lay NumRows NumCols
           (fold (\<lambda>r. fold (\<lambda>c M. M[slot lay NumRows NumCols r c := 0]) [0..<NumCols]) [r'..<NumRows] M) \<rho> c
         = (if r' \<le> \<rho> then 0 else elem lay NumRows NumCols M \<rho> c)"
proof (cases "r' \<le> \<rho>")
  case True
  have "fold (\<lambda>r. fold (\<lambda>c M. M[slot lay NumRows NumCols r c := (\<lambda>r c. 0) r c]) [0..<NumCols])
          [r'..<NumRows] M ! slot lay NumRows NumCols \<rho> c = (\<lambda>r c. 0) \<rho> c"
  proof (rule fold2_hit)
    fix r c r1 c1
    assume "r \<in> set [r'..<NumRows]" "c \<in> set [0..<NumCols]"
      "r1 \<in> set [r'..<NumRows]" "c1 \<in> set [0..<NumCols]"
      "slot lay NumRows NumCols r c = slot lay NumRows NumCols r1 c1"
    then show "r = r1 \<and> c = c1" by (intro slot_inj [of r NumRows c NumCols r1 c1 lay]) simp_all
  next
    show "\<rho> \<in> set [r'..<NumRows]" using True assms(2) by simp
    show "c \<in> set [0..<NumCols]" using assms(3) by simp
    show "slot lay NumRows NumCols \<rho> c < length M" using assms by (simp add: slot_less)
  qed
  then show ?thesis using True by (simp add: elem_def)
next
  case False
  have "fold (\<lambda>r. fold (\<lambda>c M. M[slot lay NumRows NumCols r c := (\<lambda>r c. 0) r c]) [0..<NumCols])
          [r'..<NumRows] M ! slot lay NumRows NumCols \<rho> c = M ! slot lay NumRows NumCols \<rho> c"
  proof (rule fold2_other)
    fix r c1
    assume rc: "r \<in> set [r'..<NumRows]" "c1 \<in> set [0..<NumCols]"
    then have "r \<noteq> \<rho>" using False by auto
    moreover have "r < NumRows" "c1 < NumCols" using rc by simp_all
    ultimately show "slot lay NumRows NumCols r c1 \<noteq> slot lay NumRows NumCols \<rho> c"
      using slot_inj [of r NumRows c1 NumCols \<rho> c lay] assms(2,3) by blast
  qed
  then show ?thesis using False by (simp add: elem_def)
qed

lemma Matrix_init_spec:
  fixes vs :: "'a::zero list"
  assumes small: "length vs < 2 ^ 31"
  shows "length (Matrix_init lay NumRows NumCols vs) = NumRows * NumCols"
    and "\<And>r c. r < NumRows \<Longrightarrow> c < NumCols \<Longrightarrow>
            elem lay NumRows NumCols (Matrix_init lay NumRows NumCols vs) r c
              = (if r * NumCols + c < length vs then vs ! (r * NumCols + c) else 0)"
proof -
  define Z :: "'a list" where "Z = replicate (NumRows * NumCols) 0"
  from init_rows_from_start [OF Z_def, of lay vs]
  obtain r' M' where
    run: "init_rows lay NumRows NumCols (int (length vs)) (0, 0, vs, Z) = (r', M')"
    and bounds: "r' \<le> NumRows" "length M' = NumRows * NumCols"
      "r' < NumRows \<longrightarrow> length vs \<le> r' * NumCols"
    and el: "\<forall>\<rho> c. \<rho> < NumRows \<and> c < NumCols \<longrightarrow>
               elem lay NumRows NumCols M' \<rho> c
                 = (if \<rho> < r'
                    then (if \<rho> * NumCols + c < length vs then vs ! (\<rho> * NumCols + c) else 0)
                    else 0)"
    by blast
  define F where
    "F = fold (\<lambda>r. fold (\<lambda>c M. M[slot lay NumRows NumCols r c := 0]) [0..<NumCols]) [r'..<NumRows] M'"
  have "Matrix_init lay NumRows NumCols vs
      = (case init_rows lay NumRows NumCols (int (length vs)) (0, 0, vs, Z) of
           (r, M) \<Rightarrow> if r < NumRows
             then fold (\<lambda>r. fold (\<lambda>c M. M[slot lay NumRows NumCols r c := 0]) [0..<NumCols]) [r..<NumRows] M
             else M)"
    by (simp only: Matrix_init_def int32_of_size_small [OF small] Table_ctor_eq Let_def set_elem_def Z_def)
  then have res: "Matrix_init lay NumRows NumCols vs = (if r' < NumRows then F else M')"
    by (simp only: run prod.case F_def)
  have lenF: "length F = NumRows * NumCols" by (simp add: F_def bounds(2))
  have elF: "elem lay NumRows NumCols F \<rho> c = (if r' \<le> \<rho> then 0 else elem lay NumRows NumCols M' \<rho> c)"
    if "\<rho> < NumRows" "c < NumCols" for \<rho> c
    unfolding F_def using bounds(2) that by (rule rows_zero_elem)
  show "length (Matrix_init lay NumRows NumCols vs) = NumRows * NumCols"
    using lenF bounds(2) by (simp add: res)
  show "elem lay NumRows NumCols (Matrix_init lay NumRows NumCols vs) \<rho> c
            = (if \<rho> * NumCols + c < length vs then vs ! (\<rho> * NumCols + c) else 0)"
    if rc: "\<rho> < NumRows" "c < NumCols" for \<rho> c
  proof -
    have el': "elem lay NumRows NumCols M' \<rho> c
                 = (if \<rho> < r'
                    then (if \<rho> * NumCols + c < length vs then vs ! (\<rho> * NumCols + c) else 0)
                    else 0)"
      using el rc by blast
    show ?thesis
    proof (cases "r' < NumRows")
      case True
      then have k: "length vs \<le> r' * NumCols" using bounds(3) by simp
      show ?thesis
      proof (cases "r' \<le> \<rho>")
        case True
        then have "r' * NumCols \<le> \<rho> * NumCols" by (rule mult_le_mono1)
        then have "\<not> \<rho> * NumCols + c < length vs" using k by linarith
        then show ?thesis using True \<open>r' < NumRows\<close> rc by (simp add: res elF)
      next
        case False
        then show ?thesis using \<open>r' < NumRows\<close> rc by (simp add: res elF el')
      qed
    next
      case False
      then have "\<rho> < r'" using rc(1) by simp
      then show ?thesis using False by (simp add: res el')
    qed
  qed
qed

text \<open>
  C4: for an initializer list of fewer than \<open>2 ^ 31\<close> values (so that the cast of its size
  to \<^verbatim>\<open>int32_t\<close> is exact), the constructed matrix has \<open>NumRows * NumCols\<close> elements
  and its element \<open>(r, c)\<close> is the value number \<open>r * NumCols + c\<close> of the list when the
  list has one, and zero otherwise; values beyond \<open>NumRows * NumCols\<close> are never read. A
  \<open>2 \<times> 3\<close> matrix constructed from \<open>[1, 2]\<close> has the rows \<open>[1, 2, 0]\<close> and
  \<open>[0, 0, 0]\<close>.
\<close>

theorem Matrix_init_row_major_prefix:
  assumes "length values < 2 ^ 31"
  shows "length (Matrix_init lay NumRows NumCols values) = NumRows * NumCols
       \<and> (\<forall>r c. r < NumRows \<and> c < NumCols \<longrightarrow>
            elem lay NumRows NumCols (Matrix_init lay NumRows NumCols values) r c
              = (if r * NumCols + c < length values then values ! (r * NumCols + c) else 0))
       \<and> map (\<lambda>c. elem lay 2 3 (Matrix_init lay 2 3 [1, 2 :: real]) 0 c) [0, 1, 2] = [1, 2, 0]
       \<and> map (\<lambda>c. elem lay 2 3 (Matrix_init lay 2 3 [1, 2 :: real]) 1 c) [0, 1, 2] = [0, 0, 0]"
proof -
  have ex: "length [1, 2 :: real] < 2 ^ 31" by simp
  have row: "elem lay 2 3 (Matrix_init lay 2 3 [1, 2 :: real]) r c
       = (if r * 3 + c < length [1, 2 :: real] then [1, 2 :: real] ! (r * 3 + c) else 0)"
    if "r < 2" "c < 3" for r c
    using that by (rule Matrix_init_spec(2) [OF ex])
  have "elem lay 2 3 (Matrix_init lay 2 3 [1, 2 :: real]) 0 0 = 1"
    "elem lay 2 3 (Matrix_init lay 2 3 [1, 2 :: real]) 0 1 = 2"
    "elem lay 2 3 (Matrix_init lay 2 3 [1, 2 :: real]) 0 2 = 0"
    "elem lay 2 3 (Matrix_init lay 2 3 [1, 2 :: real]) 1 0 = 0"
    "elem lay 2 3 (Matrix_init lay 2 3 [1, 2 :: real]) 1 1 = 0"
    "elem lay 2 3 (Matrix_init lay 2 3 [1, 2 :: real]) 1 2 = 0"
    by (simp_all add: row)
  then have "map (\<lambda>c. elem lay 2 3 (Matrix_init lay 2 3 [1, 2 :: real]) 0 c) [0, 1, 2] = [1, 2, 0]"
    "map (\<lambda>c. elem lay 2 3 (Matrix_init lay 2 3 [1, 2 :: real]) 1 c) [0, 1, 2] = [0, 0, 0]"
    by simp_all
  moreover have "length (Matrix_init lay NumRows NumCols values) = NumRows * NumCols"
    by (rule Matrix_init_spec(1) [OF assms])
  moreover have "\<forall>r c. r < NumRows \<and> c < NumCols \<longrightarrow>
            elem lay NumRows NumCols (Matrix_init lay NumRows NumCols values) r c
              = (if r * NumCols + c < length values then values ! (r * NumCols + c) else 0)"
    using Matrix_init_spec(2) [OF assms] by blast
  ultimately show ?thesis by (intro conjI)
qed

theorem Matrix_init_row_major_prefix_witness:
  "length [1, 2, 3, 4, 5, 6, 7 :: real] < 2 ^ 31
   \<and> length (Matrix_init ColMajor 2 2 [1, 2, 3, 4, 5, 6, 7 :: real]) = 2 * 2
   \<and> elem ColMajor 2 2 (Matrix_init ColMajor 2 2 [1, 2, 3, 4, 5, 6, 7 :: real]) 0 1 = 2
   \<and> Matrix_init ColMajor 2 2 [1, 2, 3, 4, 5, 6, 7 :: real] = [1, 3, 2, 4]
   \<and> Matrix_init RowMajor 2 3 [1, 2 :: real] = [1, 2, 0, 0, 0, 0]
   \<and> Matrix_init ColMajor 2 3 [1, 2 :: real] = [1, 0, 2, 0, 0, 0]"
proof -
  have small: "length [1, 2, 3, 4, 5, 6, 7 :: real] < 2 ^ 31" by simp
  note T = Matrix_init_row_major_prefix [OF small, of ColMajor 2 2]
  have len: "length (Matrix_init ColMajor 2 2 [1, 2, 3, 4, 5, 6, 7 :: real]) = 2 * 2"
    using T by (rule conjunct1)
  have "(0::nat) < 2 \<and> (1::nat) < 2 \<longrightarrow>
     elem ColMajor 2 2 (Matrix_init ColMajor 2 2 [1, 2, 3, 4, 5, 6, 7 :: real]) 0 1
     = (if 0 * 2 + 1 < length [1, 2, 3, 4, 5, 6, 7 :: real]
        then [1, 2, 3, 4, 5, 6, 7 :: real] ! (0 * 2 + 1) else 0)"
    using T [THEN conjunct2, THEN conjunct1] by (elim allE)
  then have el: "elem ColMajor 2 2 (Matrix_init ColMajor 2 2 [1, 2, 3, 4, 5, 6, 7 :: real]) 0 1 = 2"
    by simp
  have a: "Matrix_init ColMajor 2 2 [1, 2, 3, 4, 5, 6, 7 :: real] = [1, 3, 2, 4]"
    by code_simp
  have b: "Matrix_init RowMajor 2 3 [1, 2 :: real] = [1, 2, 0, 0, 0, 0]"
    by code_simp
  have c: "Matrix_init ColMajor 2 3 [1, 2 :: real] = [1, 0, 2, 0, 0, 0]"
    by code_simp
  show ?thesis using small len el a b c by (intro conjI)
qed

text \<open>
  Without the bound the statement fails: for a list of \<open>2 ^ 31\<close> ones the size is cast to
  \<open>- 2 ^ 31\<close>, no value is copied, and the \<open>1 \<times> 1\<close> matrix holds zero although the list has
  a first value.
\<close>

theorem Matrix_init_size_wrap_counterexample:
  "elem RowMajor 1 1 (Matrix_init RowMajor 1 1 (replicate (2 ^ 31) (1::real))) 0 0 = 0
   \<and> (0::nat) * 1 + 0 < length (replicate (2 ^ 31) (1::real))
   \<and> replicate (2 ^ 31) (1::real) ! (0 * 1 + 0) = 1
   \<and> elem RowMajor 1 1 (Matrix_init RowMajor 1 1 (replicate (2 ^ 31) (1::real))) 0 0
       \<noteq> replicate (2 ^ 31) (1::real) ! (0 * 1 + 0)"
proof -
  have "int32_of_size (length (replicate (2 ^ 31) (1::real))) = - (2 ^ 31)"
    by (simp add: int32_of_size_def)
  then have "Matrix_init RowMajor 1 1 (replicate (2 ^ 31) (1::real)) = [0]"
    by (simp add: Matrix_init_def Table_ctor_eq init_rows.simps set_elem_def slot_def)
  then show ?thesis by (simp add: elem_def slot_def)
qed

end
